theory Spec2Isabelle
  imports
    Main
    "HOL-Library.Word"
    "HOL-Library.AList"
    "HOL-Library.Multiset"
    "HOL-Library.Char_ord"
    "HOL-Library.List_Lexorder"
    "HOL-Library.Product_Lexorder"
begin

unbundle bit_operations_syntax

section \<open>Python values and dictionaries\<close>

text \<open>
  An article is a Python \<^verbatim>\<open>dict\<close> with string keys. Its values are the ones the
  pipeline puts there: \<^verbatim>\<open>None\<close>, a \<^verbatim>\<open>str\<close>, a list of \<^verbatim>\<open>str\<close> (keywords, topics,
  authors), the entity dictionary (category to list of names) and \<^verbatim>\<open>datetime\<close> objects.
  A \<^verbatim>\<open>datetime\<close> is represented by the text its \<^verbatim>\<open>isoformat()\<close> yields. A character
  is a code point below 256. A dictionary is an association list in insertion order.
\<close>

datatype pyval =
    PNone
  | PStr string
  | PList "string list"
  | PDict "(string \<times> string list) list"
  | PDateTime string

type_synonym article = "(string \<times> pyval) list"

datatype py_exn =
    KeyError | TypeError | AttributeError | ValueError | LookupError
  | OSError | JSONDecodeError | ConnectionFailure | DuplicateKeyError | FetchError

text \<open>Truth value of a Python object, as \<^verbatim>\<open>not x\<close> and \<^verbatim>\<open>if x\<close> test it.\<close>

fun truthy :: "pyval \<Rightarrow> bool" where
  "truthy PNone = False"
| "truthy (PStr s) = (s \<noteq> [])"
| "truthy (PList xs) = (xs \<noteq> [])"
| "truthy (PDict kvs) = (kvs \<noteq> [])"
| "truthy (PDateTime _) = True"

text \<open>\<^verbatim>\<open>d.get(k)\<close>: the value, or \<^verbatim>\<open>None\<close> when the key is absent.\<close>

definition dict_get :: "article \<Rightarrow> string \<Rightarrow> pyval" where
  "dict_get d k = (case map_of d k of None \<Rightarrow> PNone | Some v \<Rightarrow> v)"

text \<open>\<^verbatim>\<open>d.get(k, default)\<close>.\<close>

definition dict_get_default :: "article \<Rightarrow> string \<Rightarrow> pyval \<Rightarrow> pyval" where
  "dict_get_default d k dflt = (case map_of d k of None \<Rightarrow> dflt | Some v \<Rightarrow> v)"

text \<open>\<^verbatim>\<open>k in d\<close>.\<close>

definition has_key :: "article \<Rightarrow> string \<Rightarrow> bool" where
  "has_key d k = (k \<in> set (map fst d))"

text \<open>\<^verbatim>\<open>d[k] = v\<close>: an existing key keeps its place, a new key goes last.\<close>

definition dict_set :: "string \<Rightarrow> pyval \<Rightarrow> article \<Rightarrow> article" where
  "dict_set k v d = AList.update k v d"

subsection \<open>Strings\<close>

definition py_lower_char :: "char \<Rightarrow> char" where
  "py_lower_char c = (let n = (of_char c :: nat) in
     if (65 \<le> n \<and> n \<le> 90) \<or> (192 \<le> n \<and> n \<le> 222 \<and> n \<noteq> 215)
     then char_of (n + 32) else c)"

definition py_lower :: "string \<Rightarrow> string" where
  "py_lower s = map py_lower_char s"

definition hex_digit :: "nat \<Rightarrow> char" where
  "hex_digit n = ''0123456789abcdef'' ! (n mod 16)"

text \<open>\<^verbatim>\<open>repr\<close> of a \<^verbatim>\<open>str\<close>, which \<^verbatim>\<open>str\<close> of a list or a dict applies to its members.\<close>

definition py_printable :: "char \<Rightarrow> bool" where
  "py_printable c = (let n = (of_char c :: nat) in
     (32 \<le> n \<and> n < 127) \<or> (161 \<le> n \<and> n \<noteq> 173))"

definition repr_char :: "char \<Rightarrow> char \<Rightarrow> string" where
  "repr_char q c =
     (if c = q \<or> c = CHR 0x5C then [CHR 0x5C, c]
      else if c = CHR 0x09 then [CHR 0x5C, CHR ''t'']
      else if c = CHR 0x0A then [CHR 0x5C, CHR ''n'']
      else if c = CHR 0x0D then [CHR 0x5C, CHR ''r'']
      else if \<not> py_printable c
        then [CHR 0x5C, CHR ''x'', hex_digit (of_char c div 16), hex_digit (of_char c mod 16)]
      else [c])"

definition py_repr_str :: "string \<Rightarrow> string" where
  "py_repr_str s =
     (let q = (if CHR 0x27 \<in> set s \<and> CHR 0x22 \<notin> set s then CHR 0x22 else CHR 0x27)
      in q # concat (map (repr_char q) s) @ [q])"

fun join :: "string \<Rightarrow> string list \<Rightarrow> string" where
  "join sep [] = []"
| "join sep [x] = x"
| "join sep (x # y # ys) = x @ sep @ join sep (y # ys)"

definition py_str_list :: "string list \<Rightarrow> string" where
  "py_str_list xs = ''['' @ join '', '' (map py_repr_str xs) @ '']''"

text \<open>\<^verbatim>\<open>str(x)\<close>, which an f-string applies to the value it interpolates.\<close>

fun py_str :: "pyval \<Rightarrow> string" where
  "py_str PNone = ''None''"
| "py_str (PStr s) = s"
| "py_str (PList xs) = py_str_list xs"
| "py_str (PDict kvs) =
     ''{'' @ join '', '' (map (\<lambda>(k, vs). py_repr_str k @ '': '' @ py_str_list vs) kvs) @ ''}''"
| "py_str (PDateTime txt) = txt[10 := CHR '' '']"

definition endswith :: "string \<Rightarrow> string \<Rightarrow> bool" where
  "endswith s suf = (length suf \<le> length s \<and> drop (length s - length suf) s = suf)"

section \<open>Identity generator (news\_scraper.py)\<close>

text \<open>
  \<^verbatim>\<open>_generate_article_id(url) = hashlib.md5(url.encode()).hexdigest()\<close>.
  \<^verbatim>\<open>encode\<close> is UTF-8; MD5 is the algorithm of RFC 1321.
\<close>

type_synonym byte = "8 word"
type_synonym u32 = "32 word"

definition utf8_char :: "char \<Rightarrow> byte list" where
  "utf8_char c = (let n = (of_char c :: nat) in
     if n < 128 then [of_nat n] else [of_nat (192 + n div 64), of_nat (128 + n mod 64)])"

definition encode :: "string \<Rightarrow> byte list" where
  "encode s = concat (map utf8_char s)"

definition md5_K :: "u32 list" where
  "md5_K =
    [0xd76aa478, 0xe8c7b756, 0x242070db, 0xc1bdceee, 0xf57c0faf, 0x4787c62a, 0xa8304613, 0xfd469501,
     0x698098d8, 0x8b44f7af, 0xffff5bb1, 0x895cd7be, 0x6b901122, 0xfd987193, 0xa679438e, 0x49b40821,
     0xf61e2562, 0xc040b340, 0x265e5a51, 0xe9b6c7aa, 0xd62f105d, 0x02441453, 0xd8a1e681, 0xe7d3fbc8,
     0x21e1cde6, 0xc33707d6, 0xf4d50d87, 0x455a14ed, 0xa9e3e905, 0xfcefa3f8, 0x676f02d9, 0x8d2a4c8a,
     0xfffa3942, 0x8771f681, 0x6d9d6122, 0xfde5380c, 0xa4beea44, 0x4bdecfa9, 0xf6bb4b60, 0xbebfbc70,
     0x289b7ec6, 0xeaa127fa, 0xd4ef3085, 0x04881d05, 0xd9d4d039, 0xe6db99e5, 0x1fa27cf8, 0xc4ac5665,
     0xf4292244, 0x432aff97, 0xab9423a7, 0xfc93a039, 0x655b59c3, 0x8f0ccc92, 0xffeff47d, 0x85845dd1,
     0x6fa87e4f, 0xfe2ce6e0, 0xa3014314, 0x4e0811a1, 0xf7537e82, 0xbd3af235, 0x2ad7d2bb, 0xeb86d391]"

definition md5_s :: "nat list" where
  "md5_s =
    [7, 12, 17, 22, 7, 12, 17, 22, 7, 12, 17, 22, 7, 12, 17, 22,
     5, 9, 14, 20, 5, 9, 14, 20, 5, 9, 14, 20, 5, 9, 14, 20,
     4, 11, 16, 23, 4, 11, 16, 23, 4, 11, 16, 23, 4, 11, 16, 23,
     6, 10, 15, 21, 6, 10, 15, 21, 6, 10, 15, 21, 6, 10, 15, 21]"

definition le_bytes32 :: "u32 \<Rightarrow> byte list" where
  "le_bytes32 w = [ucast w, ucast (drop_bit 8 w), ucast (drop_bit 16 w), ucast (drop_bit 24 w)]"

definition le_bytes64 :: "64 word \<Rightarrow> byte list" where
  "le_bytes64 w = map (\<lambda>i. ucast (drop_bit (8 * i) w)) [0..<8]"

fun le_words :: "byte list \<Rightarrow> u32 list" where
  "le_words (b0 # b1 # b2 # b3 # bs) =
     (ucast b0 OR push_bit 8 (ucast b1) OR push_bit 16 (ucast b2) OR push_bit 24 (ucast b3))
       # le_words bs"
| "le_words _ = []"

definition md5_pad :: "byte list \<Rightarrow> byte list" where
  "md5_pad m = m @ [0x80] @ replicate ((119 - length m mod 64) mod 64) 0
                 @ le_bytes64 (of_nat (8 * length m))"

fun md5_step :: "u32 list \<Rightarrow> nat \<Rightarrow> u32 \<times> u32 \<times> u32 \<times> u32 \<Rightarrow> u32 \<times> u32 \<times> u32 \<times> u32" where
  "md5_step M i (A, B, C, D) =
     (let (F, g) =
        (if i < 16 then ((B AND C) OR (NOT B AND D), i)
         else if i < 32 then ((D AND B) OR (NOT D AND C), (5 * i + 1) mod 16)
         else if i < 48 then (B XOR C XOR D, (3 * i + 5) mod 16)
         else (C XOR (B OR NOT D), (7 * i) mod 16));
          F' = F + A + md5_K ! i + M ! g
      in (D, B + word_rotl (md5_s ! i) F', B, C))"

fun md5_block :: "u32 list \<Rightarrow> u32 \<times> u32 \<times> u32 \<times> u32 \<Rightarrow> u32 \<times> u32 \<times> u32 \<times> u32" where
  "md5_block M (a0, b0, c0, d0) =
     (case fold (md5_step M) [0..<64] (a0, b0, c0, d0) of
        (A, B, C, D) \<Rightarrow> (a0 + A, b0 + B, c0 + C, d0 + D))"

fun blocks16 :: "u32 list \<Rightarrow> u32 list list" where
  "blocks16 [] = []"
| "blocks16 ws = take 16 ws # blocks16 (drop 16 ws)"

definition md5 :: "byte list \<Rightarrow> byte list" where
  "md5 m = (case fold md5_block (blocks16 (le_words (md5_pad m)))
                   (0x67452301, 0xefcdab89, 0x98badcfe, 0x10325476) of
              (a, b, c, d) \<Rightarrow> le_bytes32 a @ le_bytes32 b @ le_bytes32 c @ le_bytes32 d)"

definition hex_byte :: "byte \<Rightarrow> string" where
  "hex_byte b = [hex_digit (unat b div 16), hex_digit (unat b mod 16)]"

definition hexdigest :: "byte list \<Rightarrow> string" where
  "hexdigest bs = concat (map hex_byte bs)"

definition generate_article_id :: "string \<Rightarrow> string" where
  "generate_article_id url = hexdigest (md5 (encode url))"

definition hex_alphabet :: string where
  "hex_alphabet = ''0123456789abcdef''"

section \<open>Classifier (info\_extractor.py, config.py)\<close>

text \<open>
  The NLTK functions and models the classifier calls are parameters of the model. A call
  that raises returns \<open>Inl\<close>. \<^verbatim>\<open>ne_chunk\<close> returns a tree whose children are tagged
  tokens or labelled subtrees of tagged tokens.
\<close>

datatype chunk = Token string string | Tree string "(string \<times> string) list"

record nltk =
  word_tokenize :: "string \<Rightarrow> py_exn + string list"
  sent_tokenize :: "string \<Rightarrow> py_exn + string list"
  pos_tag :: "string list \<Rightarrow> py_exn + (string \<times> string) list"
  ne_chunk :: "(string \<times> string) list \<Rightarrow> py_exn + chunk list"
  stop_words :: "string list"
  lemmatize :: "string \<Rightarrow> string"

text \<open>\<^verbatim>\<open>TOPICS\<close> of config.py and \<^verbatim>\<open>self.topic_keywords\<close>.\<close>

definition TOPICS :: "string list" where
  "TOPICS = [''politics'', ''business'', ''technology'', ''health'', ''science'', ''sports'',
             ''entertainment'']"

definition topic_keywords :: "(string \<times> string list) list" where
  "topic_keywords =
    [(''politics'',
      [''government'', ''president'', ''election'', ''vote'', ''policy'', ''minister'',
       ''parliament'', ''senate'', ''congress'', ''democrat'', ''republican'', ''law'',
       ''legislation'', ''political'', ''campaign'', ''candidate'', ''party'', ''bill'',
       ''constitution'', ''diplomat'', ''foreign policy'', ''domestic policy'']),
     (''business'',
      [''economy'', ''market'', ''stock'', ''trade'', ''company'', ''industry'',
       ''investment'', ''finance'', ''bank'', ''dollar'', ''euro'', ''profit'', ''revenue'',
       ''economic'', ''corporate'', ''CEO'', ''startup'', ''investor'', ''business'',
       ''commercial'', ''enterprise'', ''merger'', ''acquisition'', ''IPO'', ''shares'',
       ''venture capital'']),
     (''technology'',
      [''tech'', ''software'', ''hardware'', ''internet'', ''app'', ''digital'',
       ''computer'', ''AI'', ''artificial intelligence'', ''robot'', ''smartphone'',
       ''cyber'', ''code'', ''innovation'', ''startup'', ''algorithm'', ''data'',
       ''technology'', ''silicon valley'', ''programming'', ''developer'', ''cloud'',
       ''machine learning'', ''neural network'', ''automation'', ''computing'',
       ''interface'', ''platform'', ''Google'', ''Microsoft'', ''Apple'', ''Facebook'',
       ''Amazon'', ''Tesla'', ''engineering'']),
     (''health'',
      [''medical'', ''doctor'', ''hospital'', ''patient'', ''disease'', ''treatment'',
       ''drug'', ''vaccine'', ''healthcare'', ''virus'', ''pandemic'', ''medicine'',
       ''health'', ''symptom'', ''clinical'', ''therapy'', ''diagnosis'', ''surgery'',
       ''physician'', ''nurse'', ''cancer'', ''diabetes'', ''heart disease'',
       ''mental health'', ''psychiatry'', ''wellness'']),
     (''science'',
      [''research'', ''scientist'', ''study'', ''discovery'', ''experiment'', ''space'',
       ''physics'', ''biology'', ''chemistry'', ''astronomy'', ''climate'', ''environment'',
       ''laboratory'', ''theory'', ''scientific'', ''academic'', ''journal'',
       ''hypothesis'', ''evidence'', ''data'', ''analysis'', ''quantum'', ''molecular'',
       ''ecosystem'', ''evolution'', ''genetics'', ''particle'', ''NASA'', ''SpaceX'']),
     (''sports'',
      [''team'', ''player'', ''game'', ''match'', ''tournament'', ''championship'',
       ''score'', ''win'', ''lose'', ''football'', ''soccer'', ''basketball'', ''baseball'',
       ''tennis'', ''olympic'', ''athlete'', ''coach'', ''league'', ''sports'',
       ''competition'', ''fitness'', ''stadium'', ''race'', ''medal'', ''victory'',
       ''defeat'', ''NHL'', ''NBA'', ''NFL'', ''MLB'']),
     (''entertainment'',
      [''movie'', ''film'', ''actor'', ''actress'', ''director'', ''music'', ''song'',
       ''celebrity'', ''star'', ''TV'', ''show'', ''award'', ''performance'', ''concert'',
       ''festival'', ''album'', ''Hollywood'', ''entertainment'', ''streaming'',
       ''Netflix'', ''Disney'', ''HBO'', ''theater'', ''premiere'', ''box office'',
       ''Grammy'', ''Oscar'', ''Emmy'', ''artist'', ''band'', ''singer'', ''producer''])]"

definition py_isalpha_char :: "char \<Rightarrow> bool" where
  "py_isalpha_char c = (let n = (of_char c :: nat) in
     (65 \<le> n \<and> n \<le> 90) \<or> (97 \<le> n \<and> n \<le> 122) \<or> n = 170 \<or> n = 181 \<or> n = 186
     \<or> (192 \<le> n \<and> n \<le> 214) \<or> (216 \<le> n \<and> n \<le> 246) \<or> 248 \<le> n)"

definition py_isalpha :: "string \<Rightarrow> bool" where
  "py_isalpha s = (s \<noteq> [] \<and> list_all py_isalpha_char s)"

text \<open>\<^verbatim>\<open>pat in s\<close> on strings.\<close>

fun contains :: "string \<Rightarrow> string \<Rightarrow> bool" where
  "contains pat [] = (pat = [])"
| "contains pat (c # cs) = (take (length pat) (c # cs) = pat \<or> contains pat cs)"

text \<open>
  \<^verbatim>\<open>preprocess_text\<close>. A falsy argument gives \<^verbatim>\<open>[]\<close>; a truthy argument that is not a
  \<^verbatim>\<open>str\<close> has no \<^verbatim>\<open>lower\<close>.
\<close>

definition preprocess_text :: "nltk \<Rightarrow> pyval \<Rightarrow> py_exn + string list" where
  "preprocess_text env text =
     (if \<not> truthy text then Inr []
      else case text of
        PStr s \<Rightarrow>
          (case word_tokenize env (py_lower s) of
             Inl e \<Rightarrow> Inl e
           | Inr tokens \<Rightarrow>
               Inr (map (lemmatize env)
                      (filter (\<lambda>token. py_isalpha token \<and> token \<notin> set (stop_words env)) tokens)))
      | _ \<Rightarrow> Inl AttributeError)"

text \<open>\<^verbatim>\<open>extract_named_entities\<close>: the loop over the sentences stops at the first exception
  and the entities collected so far are returned.\<close>

definition empty_entities :: "(string \<times> string list) list" where
  "empty_entities =
     [(''PERSON'', []), (''ORGANIZATION'', []), (''LOCATION'', []), (''DATE'', []),
      (''MONEY'', []), (''GPE'', [])]"

fun add_chunk :: "chunk \<Rightarrow> (string \<times> string list) list \<Rightarrow> (string \<times> string list) list" where
  "add_chunk (Token w t) entities = entities"
| "add_chunk (Tree entity_type leaves) entities =
     (case map_of entities entity_type of
        None \<Rightarrow> entities
      | Some names \<Rightarrow>
          (let entity_name = join '' '' (map fst leaves)
           in if entity_name \<in> set names then entities
              else AList.update entity_type (names @ [entity_name]) entities))"

fun ner_sentences ::
  "nltk \<Rightarrow> string list \<Rightarrow> (string \<times> string list) list \<Rightarrow> (string \<times> string list) list" where
  "ner_sentences env [] entities = entities"
| "ner_sentences env (sentence # rest) entities =
     (case word_tokenize env sentence of
        Inl e \<Rightarrow> entities
      | Inr words \<Rightarrow>
          (case pos_tag env words of
             Inl e \<Rightarrow> entities
           | Inr tagged \<Rightarrow>
               (case ne_chunk env tagged of
                  Inl e \<Rightarrow> entities
                | Inr chunks \<Rightarrow> ner_sentences env rest (fold add_chunk chunks entities))))"

definition extract_named_entities :: "nltk \<Rightarrow> pyval \<Rightarrow> (string \<times> string list) list" where
  "extract_named_entities env text =
     (if \<not> truthy text then empty_entities
      else case text of
        PStr s \<Rightarrow>
          (case sent_tokenize env s of
             Inl e \<Rightarrow> empty_entities
           | Inr sentences \<Rightarrow> ner_sentences env sentences empty_entities)
      | _ \<Rightarrow> empty_entities)"

text \<open>
  \<^verbatim>\<open>classify_topic\<close>. The scores are a dictionary from topic to number, created with the
  keys of \<^verbatim>\<open>TOPICS\<close>; \<^verbatim>\<open>topic_scores[topic] += w\<close> is \<open>add_score\<close>. The four scoring loops
  are \<open>score_tokens 3\<close> on the title tokens, \<open>score_tokens 1\<close> on the tokens of the combined
  text, \<open>score_phrases\<close> and \<open>score_keywords\<close>.
\<close>

type_synonym scores = "(string \<times> int) list"

definition add_score :: "string \<Rightarrow> int \<Rightarrow> scores \<Rightarrow> scores" where
  "add_score topic w topic_scores = AList.map_entry topic (\<lambda>s. s + w) topic_scores"

definition score_tokens :: "int \<Rightarrow> string list \<Rightarrow> scores \<Rightarrow> scores" where
  "score_tokens w tokens topic_scores =
     fold (\<lambda>token sc.
        fold (\<lambda>(topic, keywords) sc'.
           if token \<in> set keywords then add_score topic w sc' else sc') topic_keywords sc)
       tokens topic_scores"

definition score_phrases :: "string \<Rightarrow> scores \<Rightarrow> scores" where
  "score_phrases text topic_scores =
     fold (\<lambda>(topic, keywords) sc.
        fold (\<lambda>keyword sc'.
           if CHR '' '' \<in> set keyword \<and> contains (py_lower keyword) (py_lower text)
           then add_score topic 2 sc' else sc') keywords sc)
       topic_keywords topic_scores"

definition score_keywords :: "string list \<Rightarrow> scores \<Rightarrow> scores" where
  "score_keywords article_keywords topic_scores =
     fold (\<lambda>keyword sc.
        fold (\<lambda>(topic, keywords) sc'.
           if list_ex (\<lambda>kw. py_lower kw = py_lower keyword) keywords
           then add_score topic 4 sc' else sc') topic_keywords sc)
       article_keywords topic_scores"

text \<open>Iterating a value with \<^verbatim>\<open>for keyword in ...\<close>, each item then used as a \<^verbatim>\<open>str\<close>.\<close>

fun py_iter :: "pyval \<Rightarrow> py_exn + string list" where
  "py_iter PNone = Inl TypeError"
| "py_iter (PStr s) = Inr (map (\<lambda>c. [c]) s)"
| "py_iter (PList xs) = Inr xs"
| "py_iter (PDict kvs) = Inr (map fst kvs)"
| "py_iter (PDateTime _) = Inl TypeError"

text \<open>The f-string \<^verbatim>\<open>f"{article.get('title', '')} {article.get('content', '')}"\<close>.\<close>

definition article_text :: "article \<Rightarrow> string" where
  "article_text a =
     py_str (dict_get_default a ''title'' (PStr [])) @ '' ''
       @ py_str (dict_get_default a ''content'' (PStr []))"

text \<open>Lines 131 to 161 of \<^verbatim>\<open>classify_topic\<close>: the scores of all topics.\<close>

definition classify_scores :: "nltk \<Rightarrow> article \<Rightarrow> py_exn + scores" where
  "classify_scores env a =
     (case preprocess_text env (PStr (article_text a)) of
        Inl e \<Rightarrow> Inl e
      | Inr tokens \<Rightarrow>
     (case preprocess_text env (dict_get_default a ''title'' (PStr [])) of
        Inl e \<Rightarrow> Inl e
      | Inr title_tokens \<Rightarrow>
     (case py_iter (dict_get_default a ''keywords'' (PList [])) of
        Inl e \<Rightarrow> Inl e
      | Inr article_keywords \<Rightarrow>
          Inr (score_keywords article_keywords
                (score_phrases (article_text a)
                  (score_tokens 1 tokens
                    (score_tokens 3 title_tokens (map (\<lambda>topic. (topic, 0)) TOPICS))))))))"

text \<open>
  \<^verbatim>\<open>sorted(items, key=score, reverse=True)\<close> is stable: items of equal score keep their
  order. That is the stable ascending sort on the negated score.
\<close>

definition classify_topic :: "nltk \<Rightarrow> article \<Rightarrow> py_exn + string list" where
  "classify_topic env a =
     (if \<not> truthy (dict_get a ''content'') \<and> \<not> truthy (dict_get a ''title'') then Inr []
      else case classify_scores env a of
        Inl e \<Rightarrow> Inl e
      | Inr topic_scores \<Rightarrow>
          (let sorted_topics = sort_key (\<lambda>(topic, score). - score) topic_scores;
               relevant_topics = map fst (filter (\<lambda>(topic, score). score > 1) sorted_topics)
           in Inr (if relevant_topics = [] then [''general''] else take 2 relevant_topics)))"

definition process_article :: "nltk \<Rightarrow> article \<Rightarrow> py_exn + article" where
  "process_article env a =
     (let entities = extract_named_entities env (dict_get_default a ''content'' (PStr []))
      in case classify_topic env a of
           Inl e \<Rightarrow> Inl e
         | Inr topics \<Rightarrow>
             Inr (dict_set ''entities'' (PDict entities) (dict_set ''topics'' (PList topics) a)))"

subsection \<open>The selection the specification describes\<close>

text \<open>
  Following the words of the specification: the topics ordered descending by score, ties
  broken by the configured order (the position in the score dictionary); the topics whose
  score exceeds 1 are relevant; the output is the first two relevant ones, or
  \<^verbatim>\<open>["general"]\<close> when there is none.
\<close>

definition spec_rank :: "scores \<Rightarrow> scores" where
  "spec_rank topic_scores =
     map snd (sort_key (\<lambda>(i, topic, score). (- score, i)) (enumerate 0 topic_scores))"

definition spec_select :: "scores \<Rightarrow> string list" where
  "spec_select topic_scores =
     (let relevant = filter (\<lambda>(topic, score). score > 1) (spec_rank topic_scores)
      in if relevant = [] then [''general''] else map fst (take 2 relevant))"

text \<open>
  Following the words of the specification: a token of a topic's keyword set counts 1 per
  occurrence in the body and 3 per occurrence in the title, a multi-word keyword found in
  the text counts 2, an entry of the article's keywords that equals a keyword of the
  topic (ignoring case) counts 4.
\<close>

definition occurrences :: "string list \<Rightarrow> string list \<Rightarrow> int" where
  "occurrences keywords tokens = int (length (filter (\<lambda>token. token \<in> set keywords) tokens))"

definition phrase_hits :: "string list \<Rightarrow> string \<Rightarrow> int" where
  "phrase_hits keywords text =
     int (length (filter (\<lambda>keyword. CHR '' '' \<in> set keyword
                            \<and> contains (py_lower keyword) (py_lower text)) keywords))"

definition keyword_hits :: "string list \<Rightarrow> string list \<Rightarrow> int" where
  "keyword_hits keywords article_keywords =
     int (length (filter (\<lambda>keyword. list_ex (\<lambda>kw. py_lower kw = py_lower keyword) keywords)
                    article_keywords))"

definition spec_score :: "nltk \<Rightarrow> article \<Rightarrow> string list \<Rightarrow> (py_exn + int)" where
  "spec_score env a keywords =
     (case preprocess_text env (dict_get_default a ''content'' (PStr [])) of
        Inl e \<Rightarrow> Inl e
      | Inr body_tokens \<Rightarrow>
     (case preprocess_text env (dict_get_default a ''title'' (PStr [])) of
        Inl e \<Rightarrow> Inl e
      | Inr title_tokens \<Rightarrow>
     (case py_iter (dict_get_default a ''keywords'' (PList [])) of
        Inl e \<Rightarrow> Inl e
      | Inr article_keywords \<Rightarrow>
          Inr (1 * occurrences keywords body_tokens + 3 * occurrences keywords title_tokens
               + 2 * phrase_hits keywords (article_text a)
               + 4 * keyword_hits keywords article_keywords))))"

definition topic_kws :: "string \<Rightarrow> string list" where
  "topic_kws topic = (case map_of topic_keywords topic of None \<Rightarrow> [] | Some keywords \<Rightarrow> keywords)"

text \<open>Whether the body of the sentence loop raises on a sentence.\<close>

definition tagging_raises :: "nltk \<Rightarrow> string \<Rightarrow> bool" where
  "tagging_raises env sentence =
     (case word_tokenize env sentence of
        Inl e \<Rightarrow> True
      | Inr words \<Rightarrow>
          (case pos_tag env words of
             Inl e \<Rightarrow> True
           | Inr tagged \<Rightarrow> (case ne_chunk env tagged of Inl e \<Rightarrow> True | Inr chunks \<Rightarrow> False)))"

section \<open>Feed acquirer and content fetcher (news\_scraper.py)\<close>

text \<open>
  The stub that \<^verbatim>\<open>parse_rss_feeds\<close> builds for a feed entry. \<^verbatim>\<open>entry.get(k, '')\<close> is
  the empty string when the entry lacks the field; \<open>now\<close> is the text of
  \<^verbatim>\<open>datetime.datetime.now().isoformat()\<close>.
\<close>

definition entry_get :: "(string \<times> string) list \<Rightarrow> string \<Rightarrow> string" where
  "entry_get entry k = (case map_of entry k of None \<Rightarrow> [] | Some v \<Rightarrow> v)"

definition feed_stub :: "(string \<times> string) list \<Rightarrow> string \<Rightarrow> string \<Rightarrow> article" where
  "feed_stub entry feed_name now =
     [(''title'', PStr (entry_get entry ''title'')),
      (''link'', PStr (entry_get entry ''link'')),
      (''published'', PStr (entry_get entry ''published'')),
      (''summary'', PStr (entry_get entry ''summary'')),
      (''source'', PStr feed_name),
      (''article_id'', PStr (generate_article_id (entry_get entry ''link''))),
      (''scraped_at'', PStr now),
      (''content'', PNone),
      (''keywords'', PList []),
      (''topics'', PList [])]"

text \<open>
  What \<^verbatim>\<open>newspaper\<close> extracts from a page. The download, the parse and the NLP pass are
  one parameter \<open>fetch\<close> from the URL to the page or to the exception one of them raised.
  A link that is not a string makes the library raise.
\<close>

record page =
  page_text :: string
  page_keywords :: "string list"
  page_top_image :: string
  page_authors :: "string list"

definition fetch_page :: "(string \<Rightarrow> py_exn + page) \<Rightarrow> pyval \<Rightarrow> py_exn + page" where
  "fetch_page fetch link = (case link of PStr url \<Rightarrow> fetch url | _ \<Rightarrow> Inl TypeError)"

text \<open>
  \<^verbatim>\<open>scrape_article_content\<close> changes the article in place and returns it; the model
  returns the article after the call. \<^verbatim>\<open>article['link']\<close> and, for an empty link,
  \<^verbatim>\<open>article['title']\<close> are read outside the \<^verbatim>\<open>try\<close> and raise \<^verbatim>\<open>KeyError\<close> when the
  key is absent. The \<^verbatim>\<open>article['title']\<close> of the success message is read inside the
  \<^verbatim>\<open>try\<close>, after the four assignments.
\<close>

definition scrape_article_content ::
  "(string \<Rightarrow> py_exn + page) \<Rightarrow> article \<Rightarrow> py_exn + article" where
  "scrape_article_content fetch a =
     (case map_of a ''link'' of
        None \<Rightarrow> Inl KeyError
      | Some link \<Rightarrow>
          if \<not> truthy link then
            (case map_of a ''title'' of None \<Rightarrow> Inl KeyError | Some title \<Rightarrow> Inr a)
          else
            (case fetch_page fetch link of
               Inl e \<Rightarrow> Inr a
             | Inr news_article \<Rightarrow>
                 Inr (dict_set ''authors'' (PList (page_authors news_article))
                       (dict_set ''top_image'' (PStr (page_top_image news_article))
                         (dict_set ''keywords'' (PList (page_keywords news_article))
                           (dict_set ''content'' (PStr (page_text news_article)) a))))))"

section \<open>Document store (db\_handler.py)\<close>

text \<open>
  The MongoDB collection is the list of its documents in insertion order. The \<^verbatim>\<open>_id\<close>
  that the server gives a document is not modelled. Whether the server answers is not
  part of the collection: every driver call takes the fault that meets this call, if
  any. A write can be met by a fault before the server applied it or after.
\<close>

type_synonym collection = "article list"

datatype fault = No_fault | Raises_before py_exn | Raises_after py_exn

text \<open>
  An equality condition of a query matches a field of the same value and an array field
  that contains the value; the condition \<^verbatim>\<open>None\<close> matches a missing field.
\<close>

fun bson_matches :: "pyval option \<Rightarrow> pyval \<Rightarrow> bool" where
  "bson_matches None q = (q = PNone)"
| "bson_matches (Some (PList xs)) (PStr s) = (s \<in> set xs)"
| "bson_matches (Some v) q = (v = q)"

definition doc_matches :: "(string \<times> pyval) list \<Rightarrow> article \<Rightarrow> bool" where
  "doc_matches filters d = list_all (\<lambda>(k, q). bson_matches (map_of d k) q) filters"

text \<open>
  The unique index on \<^verbatim>\<open>article_id\<close> that \<^verbatim>\<open>__init__\<close> creates: a document without the
  field is indexed under null, an array under each of its members, and no key may occur
  twice in the collection.
\<close>

fun index_keys :: "pyval option \<Rightarrow> pyval list" where
  "index_keys None = [PNone]"
| "index_keys (Some (PList xs)) = (if xs = [] then [PList []] else map PStr (remdups xs))"
| "index_keys (Some v) = [v]"

definition unique_index_ok :: "collection \<Rightarrow> bool" where
  "unique_index_ok docs = distinct (concat (map (\<lambda>d. index_keys (map_of d ''article_id'')) docs))"


text \<open>\<^verbatim>\<open>{"$set": fields}\<close> on a document.\<close>

definition set_fields :: "article \<Rightarrow> article \<Rightarrow> article" where
  "set_fields new_fields d = fold (\<lambda>(k, v) d'. AList.update k v d') new_fields d"

fun update_first :: "('a \<Rightarrow> bool) \<Rightarrow> ('a \<Rightarrow> 'a) \<Rightarrow> 'a list \<Rightarrow> 'a list" where
  "update_first P f [] = []"
| "update_first P f (x # xs) = (if P x then f x # xs else x # update_first P f xs)"

datatype update_result = Upserted | Modified | Unmodified

text \<open>
  What the server does with \<^verbatim>\<open>update_one(filter, {"$set": fields}, upsert=True)\<close>: the
  first matching document is updated; without a match, a document with the fields of the
  filter and the fields set is inserted; a write that would break the unique index is
  refused with \<^verbatim>\<open>DuplicateKeyError\<close> and changes nothing.
\<close>

definition apply_upsert ::
  "collection \<Rightarrow> (string \<times> pyval) list \<Rightarrow> article \<Rightarrow> (py_exn + update_result) \<times> collection" where
  "apply_upsert docs filters new_fields =
     (case find (doc_matches filters) docs of
        None \<Rightarrow>
          (let docs' = docs @ [set_fields new_fields filters]
           in if unique_index_ok docs' then (Inr Upserted, docs')
              else (Inl DuplicateKeyError, docs))
      | Some d \<Rightarrow>
          (if set_fields new_fields d = d then (Inr Unmodified, docs)
           else
             (let docs' = update_first (doc_matches filters) (set_fields new_fields) docs
              in if unique_index_ok docs' then (Inr Modified, docs')
                 else (Inl DuplicateKeyError, docs))))"

text \<open>
  The driver call \<^verbatim>\<open>collection.update_one\<close>: its result or the exception it raises, and
  the collection after the call.
\<close>

definition update_one_upsert ::
  "fault \<Rightarrow> collection \<Rightarrow> (string \<times> pyval) list \<Rightarrow> article
     \<Rightarrow> (py_exn + update_result) \<times> collection" where
  "update_one_upsert flt docs filters new_fields =
     (case flt of
        Raises_before e \<Rightarrow> (Inl e, docs)
      | Raises_after e \<Rightarrow> (Inl e, snd (apply_upsert docs filters new_fields))
      | No_fault \<Rightarrow> apply_upsert docs filters new_fields)"

text \<open>
  \<^verbatim>\<open>DatabaseHandler.save_article\<close>. The result is the return value, the article after
  the call and the collection after the call. The three messages of the successful
  branches read \<^verbatim>\<open>article['title']\<close> inside the \<^verbatim>\<open>try\<close>: without that key the
  \<^verbatim>\<open>KeyError\<close> is caught after the write and \<^verbatim>\<open>False\<close> is returned.
\<close>

definition db_save_article :: "fault \<Rightarrow> article \<Rightarrow> collection \<Rightarrow> bool \<times> article \<times> collection" where
  "db_save_article flt a docs =
     (if a = [] \<or> \<not> truthy (dict_get a ''article_id'') then (False, a, docs)
      else case update_one_upsert flt docs [(''article_id'', dict_get a ''article_id'')] a of
             (Inl e, docs') \<Rightarrow> (False, a, docs')
           | (Inr result, docs') \<Rightarrow>
               if has_key a ''title'' then (True, a, docs') else (False, a, docs'))"



text \<open>
  Sorting in descending order, items of equal key in their given order: Python's
  \<^verbatim>\<open>sort(reverse=True)\<close>, and the model of a descending sort of the server.
\<close>

definition sort_desc :: "('a \<Rightarrow> 'k::linorder) \<Rightarrow> 'a list \<Rightarrow> 'a list" where
  "sort_desc key xs = rev (sort_key key (rev xs))"

text \<open>
  The order of the values of a field in a sort of the server: an empty array, then null
  or missing, then strings, then objects, then dates. An array sorts in a descending sort
  by its greatest member; objects are not ordered among themselves here.
\<close>

fun bson_sort_key :: "pyval option \<Rightarrow> nat \<times> string" where
  "bson_sort_key None = (1, [])"
| "bson_sort_key (Some PNone) = (1, [])"
| "bson_sort_key (Some (PStr s)) = (2, s)"
| "bson_sort_key (Some (PList xs)) = (if xs = [] then (0, []) else (2, Max (set xs)))"
| "bson_sort_key (Some (PDict kvs)) = (3, [])"
| "bson_sort_key (Some (PDateTime stamp)) = (4, stamp)"

text \<open>\<^verbatim>\<open>cursor.limit(n)\<close>: 0 is no limit, a negative limit is its absolute value.\<close>

definition cursor_limit :: "int \<Rightarrow> 'a list \<Rightarrow> 'a list" where
  "cursor_limit n xs = (if n = 0 then xs else take (nat \<bar>n\<bar>) xs)"

text \<open>
  \<^verbatim>\<open>get_articles\<close> with the default sort, descending \<^verbatim>\<open>scraped_at\<close>. A negative skip
  makes \<^verbatim>\<open>cursor.skip\<close> raise \<^verbatim>\<open>ValueError\<close>, which is caught as a fault of the call is.
\<close>

definition db_get_articles ::
  "fault \<Rightarrow> (string \<times> pyval) list \<Rightarrow> int \<Rightarrow> int \<Rightarrow> collection \<Rightarrow> article list" where
  "db_get_articles flt filters limit skip docs =
     (if flt \<noteq> No_fault \<or> skip < 0 then []
      else cursor_limit limit
             (drop (nat skip)
               (sort_desc (\<lambda>d. bson_sort_key (map_of d ''scraped_at''))
                 (filter (doc_matches filters) docs))))"




section \<open>File store (file\_storage.py)\<close>

text \<open>
  The files that the store can reach, in the order \<^verbatim>\<open>os.listdir\<close> gives them: each with
  the file it is, its modification time and its content. A file is an entry of the
  articles directory, known by its name there, or a file elsewhere (an id such as
  \<^verbatim>\<open>../x\<close> or an absolute path leads out of the directory). The content is the JSON
  document that was written, or garbage when the writing was cut short.
\<close>

datatype file_key = Entry string | Elsewhere string

datatype file_body = Json article | Garbage

type_synonym file_system = "(file_key \<times> nat \<times> file_body) list"

text \<open>
  What the operating system does with a path is not decided here. Every call that opens
  a file takes \<open>resolve\<close>: for the name joined to the articles directory, the file that
  opening it at this call reaches, or \<open>None\<close> when the opening raises.
\<close>

type_synonym resolver = "string \<Rightarrow> file_key option"

text \<open>The entries of the articles directory, as \<^verbatim>\<open>os.listdir\<close> names them.\<close>

fun entries :: "file_system \<Rightarrow> (string \<times> nat \<times> file_body) list" where
  "entries [] = []"
| "entries ((Entry name, f) # fs) = (name, f) # entries fs"
| "entries ((Elsewhere path, f) # fs) = entries fs"

text \<open>The file name \<^verbatim>\<open>f"{article_id}.json"\<close> of an article id.\<close>

definition json_name :: "pyval \<Rightarrow> string" where
  "json_name article_id = py_str article_id @ ''.json''"

definition write_file :: "file_key \<Rightarrow> nat \<Rightarrow> file_body \<Rightarrow> file_system \<Rightarrow> file_system" where
  "write_file key t body fs = AList.update key (t, body) fs"

definition serialize_field :: "string \<Rightarrow> article \<Rightarrow> article" where
  "serialize_field k d =
     (case map_of d k of Some (PDateTime stamp) \<Rightarrow> AList.update k (PStr stamp) d | _ \<Rightarrow> d)"

definition serialize_article :: "article \<Rightarrow> article" where
  "serialize_article a = serialize_field ''scraped_at'' (serialize_field ''published_date'' a)"

text \<open>
  \<^verbatim>\<open>datetime.fromisoformat\<close> is the parameter \<open>fromiso\<close>: the parsed date (as the text
  of its \<^verbatim>\<open>isoformat()\<close>), or \<open>None\<close> for the \<^verbatim>\<open>ValueError\<close>, which is passed over.
\<close>

definition deserialize_field :: "(string \<Rightarrow> string option) \<Rightarrow> string \<Rightarrow> article \<Rightarrow> article" where
  "deserialize_field fromiso k d =
     (case map_of d k of
        Some (PStr s) \<Rightarrow>
          (case fromiso s of None \<Rightarrow> d | Some stamp \<Rightarrow> AList.update k (PDateTime stamp) d)
      | _ \<Rightarrow> d)"

definition deserialize_article :: "(string \<Rightarrow> string option) \<Rightarrow> article \<Rightarrow> article" where
  "deserialize_article fromiso d =
     deserialize_field fromiso ''scraped_at'' (deserialize_field fromiso ''published_date'' d)"

text \<open>\<^verbatim>\<open>json.dump\<close> raises \<^verbatim>\<open>TypeError\<close> on a \<^verbatim>\<open>datetime\<close>; the other values are written.\<close>

fun is_datetime :: "pyval \<Rightarrow> bool" where
  "is_datetime (PDateTime _) = True"
| "is_datetime _ = False"

definition json_dump :: "article \<Rightarrow> py_exn + article" where
  "json_dump d = (if list_ex (\<lambda>(k, v). is_datetime v) d then Inl TypeError else Inr d)"

text \<open>
  \<^verbatim>\<open>FileStorage.save_article\<close>, with the clock reading \<open>now\<close> of \<^verbatim>\<open>datetime.now()\<close> and
  the modification time \<open>t\<close> that the write gives the file. The result is the return
  value, the article after the call and the files after the call. Opening the file for
  writing empties it before \<^verbatim>\<open>json.dump\<close> runs.
\<close>

definition fs_save_article ::
  "resolver \<Rightarrow> string \<Rightarrow> nat \<Rightarrow> article \<Rightarrow> file_system \<Rightarrow> bool \<times> article \<times> file_system" where
  "fs_save_article resolve now t a fs =
     (if a = [] \<or> \<not> truthy (dict_get a ''article_id'') then (False, a, fs)
      else
        (let article_path = json_name (dict_get a ''article_id'');
             a' = (if \<not> has_key a ''scraped_at'' then dict_set ''scraped_at'' (PDateTime now) a
                   else a)
         in case resolve article_path of
              None \<Rightarrow> (False, a', fs)
            | Some key \<Rightarrow>
                (case json_dump (serialize_article a') of
                   Inl e \<Rightarrow> (False, a', write_file key t Garbage fs)
                 | Inr doc \<Rightarrow> (True, a', write_file key t (Json doc) fs))))"



text \<open>\<^verbatim>\<open>xs[i:j]\<close> with Python's treatment of negative and too large bounds.\<close>

definition py_slice :: "'a list \<Rightarrow> int \<Rightarrow> int \<Rightarrow> 'a list" where
  "py_slice xs i j =
     (let n = int (length xs);
          lo = (if i < 0 then max (i + n) 0 else min i n);
          hi = (if j < 0 then max (j + n) 0 else min j n)
      in take (nat (hi - lo)) (drop (nat lo) xs))"

text \<open>
  \<^verbatim>\<open>FileStorage.get_recent_articles\<close>: the files sorted by modification time, most recent
  first, sliced, then loaded; a file of the page that does not load makes the call
  return \<^verbatim>\<open>[]\<close>.
\<close>

definition recent_files :: "file_system \<Rightarrow> (string \<times> nat \<times> file_body) list" where
  "recent_files fs =
     sort_desc (\<lambda>(name, t, body). t) (filter (\<lambda>(name, f). endswith name ''.json'') (entries fs))"

fun load_all :: "(string \<Rightarrow> string option) \<Rightarrow> (string \<times> nat \<times> file_body) list \<Rightarrow> py_exn + article list" where
  "load_all fromiso [] = Inr []"
| "load_all fromiso ((name, t, Garbage) # fs) = Inl JSONDecodeError"
| "load_all fromiso ((name, t, Json d) # fs) =
     (case load_all fromiso fs of
        Inl e \<Rightarrow> Inl e
      | Inr articles \<Rightarrow> Inr (deserialize_article fromiso d # articles))"

text \<open>A directory in which every entry holds a document, and the article that loading
  such a file gives.\<close>

definition readable :: "file_system \<Rightarrow> bool" where
  "readable fs = list_all (\<lambda>(name, t, body). body \<noteq> Garbage) (entries fs)"

definition file_article ::
  "(string \<Rightarrow> string option) \<Rightarrow> string \<times> nat \<times> file_body \<Rightarrow> article" where
  "file_article fromiso f =
     (case f of (name, t, Json d) \<Rightarrow> deserialize_article fromiso d | (name, t, Garbage) \<Rightarrow> [])"

definition fs_get_recent_articles ::
  "(string \<Rightarrow> string option) \<Rightarrow> int \<Rightarrow> int \<Rightarrow> file_system \<Rightarrow> article list" where
  "fs_get_recent_articles fromiso limit skip fs =
     (case load_all fromiso (py_slice (recent_files fs) skip (skip + limit)) of
        Inl e \<Rightarrow> []
      | Inr articles \<Rightarrow> articles)"

subsection \<open>The query the specification describes\<close>

text \<open>
  Following the words of the specification: the result of a query is the full sequence
  of the stored articles in descending order of \<^verbatim>\<open>scraped_at\<close>, of which the positions
  from \<open>skip\<close> up to \<open>skip + limit\<close> are returned.
\<close>

definition spec_page :: "article list \<Rightarrow> nat \<Rightarrow> nat \<Rightarrow> article list" where
  "spec_page stored limit skip =
     take limit (drop skip (sort_desc (\<lambda>d. bson_sort_key (map_of d ''scraped_at'')) stored))"

definition stored_articles :: "(string \<Rightarrow> string option) \<Rightarrow> file_system \<Rightarrow> article list" where
  "stored_articles fromiso fs =
     concat (map (\<lambda>(name, t, body). case body of Json d \<Rightarrow> [deserialize_article fromiso d]
                                                | Garbage \<Rightarrow> [])
               (filter (\<lambda>(name, f). endswith name ''.json'') (entries fs)))"

section \<open>The other queries of the two backends\<close>
















section \<open>Running the same saves on both backends\<close>













section \<open>Concrete inputs\<close>

text \<open>
  Stand-ins for the NLTK functions at concrete inputs. \<open>blank_nltk\<close> tokenizes at blanks,
  as \<^verbatim>\<open>word_tokenize\<close> does on words separated by single blanks, has a few of the English
  stop words, leaves every word as its own lemma and finds no entity. \<open>faulty_nltk\<close> tags
  \<^verbatim>\<open>Alice\<close> as a person and its tagger raises on a sentence that mentions \<^verbatim>\<open>Bob\<close>.
  In \<open>down_nltk\<close> the tokenizer models are missing and every tokenizer call raises
  \<^verbatim>\<open>LookupError\<close>.
\<close>

fun split_on :: "char \<Rightarrow> string \<Rightarrow> string list" where
  "split_on sep [] = [[]]"
| "split_on sep (c # cs) =
     (if c = sep then [] # split_on sep cs
      else (case split_on sep cs of [] \<Rightarrow> [[c]] | w # ws \<Rightarrow> (c # w) # ws))"

definition blank_words :: "string \<Rightarrow> string list" where
  "blank_words s = filter (\<lambda>w. w \<noteq> []) (split_on CHR '' '' s)"

definition blank_nltk :: nltk where
  "blank_nltk =
     \<lparr>word_tokenize = (\<lambda>s. Inr (blank_words s)),
      sent_tokenize = (\<lambda>s. Inr [s]),
      pos_tag = (\<lambda>ws. Inr (map (\<lambda>w. (w, ''NN'')) ws)),
      ne_chunk = (\<lambda>tagged. Inr (map (\<lambda>(w, t). Token w t) tagged)),
      stop_words = [''the'', ''a'', ''an'', ''of'', ''and'', ''in'', ''to''],
      lemmatize = (\<lambda>w. w)\<rparr>"

definition faulty_nltk :: nltk where
  "faulty_nltk =
     \<lparr>word_tokenize = (\<lambda>s. Inr (blank_words s)),
      sent_tokenize = (\<lambda>s. if s = ''Alice spoke. Bob left.''
                            then Inr [''Alice spoke.'', ''Bob left.''] else Inr [s]),
      pos_tag = (\<lambda>ws. if ''Bob'' \<in> set ws then Inl LookupError
                       else Inr (map (\<lambda>w. (w, ''NNP'')) ws)),
      ne_chunk = (\<lambda>tagged. Inr (map (\<lambda>(w, t). if w = ''Alice'' then Tree ''PERSON'' [(w, t)]
                                                else Token w t) tagged)),
      stop_words = [''the'', ''a'', ''an'', ''of'', ''and'', ''in'', ''to''],
      lemmatize = (\<lambda>w. w)\<rparr>"

definition down_nltk :: nltk where
  "down_nltk =
     \<lparr>word_tokenize = (\<lambda>s. Inl LookupError),
      sent_tokenize = (\<lambda>s. Inl LookupError),
      pos_tag = (\<lambda>ws. Inl LookupError),
      ne_chunk = (\<lambda>tagged. Inl LookupError),
      stop_words = [],
      lemmatize = (\<lambda>w. w)\<rparr>"

text \<open>An article whose title is one political keyword and whose body is empty.\<close>

definition election_article :: article where
  "election_article =
     [(''title'', PStr ''election''), (''content'', PStr ''''), (''keywords'', PList [])]"

text \<open>A stub whose feed entry had no title and whose content was not fetched.\<close>

definition untitled_stub :: article where
  "untitled_stub =
     [(''title'', PStr ''''), (''link'', PStr ''http://a.example/x''), (''content'', PNone),
      (''keywords'', PList []), (''topics'', PList [])]"

text \<open>An article about banks, with a keyword from the fetch.\<close>

definition bank_article :: article where
  "bank_article =
     [(''title'', PStr ''Fed raises interest rates''),
      (''content'', PStr ''the bank sees economic risk in the market''),
      (''keywords'', PList [''vaccine''])]"

definition alice_bob_article :: article where
  "alice_bob_article =
     [(''title'', PStr ''Alice and Bob''), (''content'', PStr ''Alice spoke. Bob left.'')]"

text \<open>An article whose keywords field is \<^verbatim>\<open>None\<close>.\<close>

definition keyless_article :: article where
  "keyless_article =
     [(''title'', PStr ''election''), (''content'', PStr []), (''keywords'', PNone)]"

text \<open>
  A directory in which the listed names open as entries and nothing else opens, and a
  parser of clock texts that reads every text as the date of that text.
\<close>

definition plain_dir :: "string list \<Rightarrow> resolver" where
  "plain_dir names name = (if name \<in> set names then Some (Entry name) else None)"

definition iso_text :: "string \<Rightarrow> string option" where
  "iso_text s = Some s"

text \<open>An article, a later version of it without its content, and an article that holds a
  \<^verbatim>\<open>datetime\<close> under a key that the file store does not convert.\<close>

definition full_article :: article where
  "full_article =
     [(''article_id'', PStr ''a1''), (''title'', PStr ''Rates''), (''content'', PStr ''The bank''),
      (''scraped_at'', PNone)]"

definition partial_article :: article where
  "partial_article =
     [(''article_id'', PStr ''a1''), (''title'', PStr ''Rates again''), (''scraped_at'', PNone)]"


definition unstamped_article :: article where
  "unstamped_article = [(''article_id'', PStr ''a2''), (''title'', PStr ''Cup final'')]"

text \<open>Two articles, the one scraped later being saved first.\<close>

definition february_article :: article where
  "february_article =
     [(''article_id'', PStr ''feb''), (''title'', PStr ''February''),
      (''scraped_at'', PStr ''2024-02-01T00:00:00'')]"

definition january_article :: article where
  "january_article =
     [(''article_id'', PStr ''jan''), (''title'', PStr ''January''),
      (''scraped_at'', PStr ''2024-01-01T00:00:00'')]"









section \<open>Properties of the identity generator\<close>

lemma length_md5: "length (md5 m) = 16"
proof -
  obtain a b c d where
    "fold md5_block (blocks16 (le_words (md5_pad m)))
       (0x67452301, 0xefcdab89, 0x98badcfe, 0x10325476) = (a, b, c, d)"
    using prod_cases4 by blast
  then have "md5 m = le_bytes32 a @ le_bytes32 b @ le_bytes32 c @ le_bytes32 d"
    unfolding md5_def by (simp only: prod.case)
  then show ?thesis
    by (simp add: le_bytes32_def)
qed

lemma length_hexdigest: "length (hexdigest bs) = 2 * length bs"
  by (induction bs) (simp_all add: hexdigest_def hex_byte_def)

lemma hex_digit_range: "hex_digit n \<in> set hex_alphabet"
proof -
  have "n mod 16 < length hex_alphabet"
    by (simp add: hex_alphabet_def)
  then have "hex_alphabet ! (n mod 16) \<in> set hex_alphabet"
    by (rule nth_mem)
  then show ?thesis
    by (simp only: hex_digit_def hex_alphabet_def)
qed

lemma hexdigest_chars: "set (hexdigest bs) \<subseteq> set hex_alphabet"
proof (induction bs)
  case Nil
  then show ?case by (simp add: hexdigest_def)
next
  case (Cons b bs)
  have "hexdigest (b # bs) = hex_byte b @ hexdigest bs"
    by (simp add: hexdigest_def)
  moreover have "set (hex_byte b) \<subseteq> set hex_alphabet"
    using hex_digit_range [of "unat b div 16"] hex_digit_range [of "unat b mod 16"]
    by (simp only: hex_byte_def list.set insert_subset empty_subsetI simp_thms)
  ultimately show ?case
    using Cons.IH by (simp only: set_append Un_subset_iff simp_thms)
qed

lemma md5_empty: "hexdigest (md5 []) = ''d41d8cd98f00b204e9800998ecf8427e''"
  by code_simp

lemma md5_latin1:
  "hexdigest (md5 (encode [CHR ''c'', CHR ''a'', CHR ''f'', CHR 0xE9])) =
     ''07117fe4a1ebd544965dc19573183da2''"
  by code_simp

lemma md5_abc: "hexdigest (md5 (encode ''abc'')) = ''900150983cd24fb0d6963f7d28e17f72''"
  by code_simp

text \<open>
  C9. The article id is a function of the locator alone: equal locators give equal ids.
  It is always 32 lower-case hexadecimal digits, the rendering of the 16-byte (128-bit)
  MD5 digest. The empty locator is accepted and gives the digest of the empty byte
  string, \<^verbatim>\<open>d41d8cd98f00b204e9800998ecf8427e\<close>.
\<close>

theorem generate_article_id_deterministic_fixed_width:
  "(u1 = u2 \<longrightarrow> generate_article_id u1 = generate_article_id u2)
   \<and> length (md5 (encode u1)) = 16
   \<and> length (generate_article_id u1) = 32
   \<and> set (generate_article_id u1) \<subseteq> set hex_alphabet
   \<and> generate_article_id [] = hexdigest (md5 [])
   \<and> generate_article_id [] = ''d41d8cd98f00b204e9800998ecf8427e''"
proof -
  have "length (generate_article_id u1) = 32"
    by (simp add: generate_article_id_def length_hexdigest length_md5)
  moreover have "set (generate_article_id u1) \<subseteq> set hex_alphabet"
    by (simp only: generate_article_id_def hexdigest_chars)
  moreover have "generate_article_id [] = hexdigest (md5 [])"
    by (simp add: generate_article_id_def encode_def)
  ultimately show ?thesis
    using md5_empty length_md5 by simp
qed

theorem generate_article_id_witness:
  "generate_article_id ''http://a.example/x'' = generate_article_id ''http://a.example/x''
   \<and> length (generate_article_id ''http://a.example/x'') = 32
   \<and> generate_article_id ''http://a.example/x'' = ''3b0f361c22e1755442ab57b07ab1e3b9''"
proof -
  have "generate_article_id ''http://a.example/x'' = ''3b0f361c22e1755442ab57b07ab1e3b9''"
    by code_simp
  with generate_article_id_deterministic_fixed_width
         [of "''http://a.example/x''" "''http://a.example/x''"]
  show ?thesis by simp
qed

section \<open>Properties of the classifier\<close>

subsection \<open>Scores\<close>

lemma topic_keywords_keys: "map fst topic_keywords = TOPICS"
  by (simp add: topic_keywords_def TOPICS_def)

lemma distinct_topic_keys: "distinct (map fst topic_keywords)"
  by (simp add: topic_keywords_def)

lemma map_fst_add_score: "map fst (add_score t w sc) = map fst sc"
  unfolding add_score_def by (induction sc) auto

lemma map_of_add_score:
  "map_of (add_score t w sc) t' =
     (if t' = t then map_option (\<lambda>s. s + w) (map_of sc t) else map_of sc t')"
  unfolding add_score_def by (induction sc) auto

text \<open>One pass over the topics with a condition on the keyword list of each topic.\<close>

lemma fold_topics_score:
  assumes "distinct (map fst tk)" and "map_of sc t = Some v"
  shows "map_of (fold (\<lambda>(topic, kws) sc'. if P kws then add_score topic w sc' else sc') tk sc) t
         = Some (v + (case map_of tk t of None \<Rightarrow> 0 | Some kws \<Rightarrow> if P kws then w else 0))"
  using assms
proof (induction tk arbitrary: sc v)
  case Nil
  then show ?case by simp
next
  case (Cons entry tk)
  obtain topic kws where entry: "entry = (topic, kws)"
    by (cases entry)
  let ?sc = "if P kws then add_score topic w sc else sc"
  have absent: "map_of tk topic = None"
    using Cons.prems(1) entry by (simp add: map_of_eq_None_iff)
  show ?case
  proof (cases "t = topic")
    case True
    have "map_of ?sc t = Some (v + (if P kws then w else 0))"
      using Cons.prems(2) True by (simp add: map_of_add_score)
    from Cons.IH [OF _ this] Cons.prems(1) show ?thesis
      using entry True absent by simp
  next
    case False
    have "map_of ?sc t = Some v"
      using Cons.prems(2) False by (simp add: map_of_add_score)
    from Cons.IH [OF _ this] Cons.prems(1) show ?thesis
      using entry False by simp
  qed
qed

lemma score_tokens_closed:
  assumes "map_of sc t = Some v" and "map_of topic_keywords t = Some kws"
  shows "map_of (score_tokens w tokens sc) t = Some (v + w * occurrences kws tokens)"
  using assms(1)
proof (induction tokens arbitrary: sc v)
  case Nil
  then show ?case by (simp add: score_tokens_def occurrences_def)
next
  case (Cons token tokens)
  let ?sc = "fold (\<lambda>(topic, keywords) sc'.
                 if token \<in> set keywords then add_score topic w sc' else sc') topic_keywords sc"
  have step: "map_of ?sc t = Some (v + (if token \<in> set kws then w else 0))"
    using fold_topics_score [OF distinct_topic_keys Cons.prems,
            where P = "\<lambda>keywords. token \<in> set keywords" and w = w] assms(2)
    by simp
  have "score_tokens w (token # tokens) sc = score_tokens w tokens ?sc"
    by (simp add: score_tokens_def)
  then show ?case
    using Cons.IH [OF step] by (simp add: occurrences_def algebra_simps)
qed

lemma score_keywords_closed:
  assumes "map_of sc t = Some v" and "map_of topic_keywords t = Some kws"
  shows "map_of (score_keywords aks sc) t = Some (v + 4 * keyword_hits kws aks)"
  using assms(1)
proof (induction aks arbitrary: sc v)
  case Nil
  then show ?case by (simp add: score_keywords_def keyword_hits_def)
next
  case (Cons keyword aks)
  let ?sc = "fold (\<lambda>(topic, keywords) sc'.
                 if list_ex (\<lambda>kw. py_lower kw = py_lower keyword) keywords
                 then add_score topic 4 sc' else sc') topic_keywords sc"
  have step: "map_of ?sc t
              = Some (v + (if list_ex (\<lambda>kw. py_lower kw = py_lower keyword) kws then 4 else 0))"
    using fold_topics_score [OF distinct_topic_keys Cons.prems,
            where P = "\<lambda>keywords. list_ex (\<lambda>kw. py_lower kw = py_lower keyword) keywords"
              and w = 4] assms(2)
    by simp
  have "score_keywords (keyword # aks) sc = score_keywords aks ?sc"
    by (simp add: score_keywords_def)
  then show ?case
    using Cons.IH [OF step] by (simp add: keyword_hits_def algebra_simps)
qed

text \<open>The inner loop of the phrase pass, over the keywords of one topic.\<close>

lemma fold_phrases_score:
  assumes "map_of sc t = Some v"
  shows "map_of (fold (\<lambda>keyword sc'. if Q keyword then add_score topic w sc' else sc') kws sc) t
         = Some (v + (if t = topic then w * int (length (filter Q kws)) else 0))"
  using assms
proof (induction kws arbitrary: sc v)
  case Nil
  then show ?case by simp
next
  case (Cons keyword kws)
  let ?sc = "if Q keyword then add_score topic w sc else sc"
  have "map_of ?sc t = Some (v + (if t = topic \<and> Q keyword then w else 0))"
    using Cons.prems by (auto simp: map_of_add_score)
  from Cons.IH [OF this] show ?case
    by (simp add: algebra_simps)
qed

lemma fold_topics_phrases:
  assumes "distinct (map fst tk)" and "map_of sc t = Some v"
  shows "map_of (fold (\<lambda>(topic, kws) sc'.
                    fold (\<lambda>keyword sc''. if Q keyword then add_score topic w sc'' else sc'') kws sc')
                  tk sc) t
         = Some (v + (case map_of tk t of None \<Rightarrow> 0
                      | Some kws \<Rightarrow> w * int (length (filter Q kws))))"
  using assms
proof (induction tk arbitrary: sc v)
  case Nil
  then show ?case by simp
next
  case (Cons entry tk)
  obtain topic kws where entry: "entry = (topic, kws)"
    by (cases entry)
  let ?sc = "fold (\<lambda>keyword sc''. if Q keyword then add_score topic w sc'' else sc'') kws sc"
  have absent: "map_of tk topic = None"
    using Cons.prems(1) entry by (simp add: map_of_eq_None_iff)
  have step: "map_of ?sc t = Some (v + (if t = topic then w * int (length (filter Q kws)) else 0))"
    by (rule fold_phrases_score [OF Cons.prems(2)])
  from Cons.IH [OF _ step] Cons.prems(1) show ?case
    using entry absent by (cases "t = topic") simp_all
qed

lemma score_phrases_closed:
  assumes "map_of sc t = Some v" and "map_of topic_keywords t = Some kws"
  shows "map_of (score_phrases text sc) t = Some (v + 2 * phrase_hits kws text)"
  unfolding score_phrases_def phrase_hits_def
  using fold_topics_phrases [OF distinct_topic_keys assms(1),
          where Q = "\<lambda>keyword. CHR '' '' \<in> set keyword \<and> contains (py_lower keyword) (py_lower text)"
            and w = 2] assms(2)
  by simp

lemma initial_scores:
  assumes "map_of topic_keywords t = Some kws"
  shows "map_of (map (\<lambda>topic. (topic, 0::int)) TOPICS) t = Some 0"
proof -
  have "t \<in> set TOPICS"
    using assms map_of_SomeD [OF assms] topic_keywords_keys
    by (metis fst_conv image_eqI set_map)
  then show ?thesis
    by (simp add: map_of_map_restrict)
qed

lemma map_fst_fold_add:
  assumes "\<And>x sc. map fst (f x sc) = map fst sc"
  shows "map fst (fold f xs sc) = map fst sc"
  using assms by (induction xs arbitrary: sc) simp_all

lemma map_fst_score_tokens: "map fst (score_tokens w tokens sc) = map fst sc"
  unfolding score_tokens_def
  by (intro map_fst_fold_add) (auto simp: map_fst_add_score split: prod.splits)

lemma map_fst_score_phrases: "map fst (score_phrases text sc) = map fst sc"
proof -
  have inner: "map fst (fold (\<lambda>keyword sc'. if Q keyword then add_score topic 2 sc' else sc')
                          kws sc0) = map fst sc0" for Q topic kws sc0
    by (intro map_fst_fold_add) (simp add: map_fst_add_score)
  show ?thesis
    unfolding score_phrases_def
    by (intro map_fst_fold_add) (simp add: inner split: prod.splits)
qed

lemma map_fst_score_keywords: "map fst (score_keywords aks sc) = map fst sc"
  unfolding score_keywords_def
  by (intro map_fst_fold_add) (auto simp: map_fst_add_score split: prod.splits)

lemma classify_scores_keys:
  assumes "classify_scores env a = Inr sc"
  shows "map fst sc = TOPICS"
  using assms unfolding classify_scores_def
  by (auto split: sum.splits
        simp: map_fst_score_tokens map_fst_score_phrases map_fst_score_keywords comp_def)

lemma occurrences_append:
  "occurrences kws (xs @ ys) = occurrences kws xs + occurrences kws ys"
  by (simp add: occurrences_def)

text \<open>
  C2 (amended). For every topic, the score is 3 per occurrence of a keyword of the topic
  among the preprocessed title tokens, plus 1 per occurrence among the preprocessed tokens
  of the combined text "title content" (which contains the title again), plus 2 for each
  multi-word keyword of the topic found in the lower-cased combined text, plus 4 for each
  entry of the article's keywords that equals a keyword of the topic ignoring case. When
  the tokens of the combined text are the title tokens followed by the body tokens, an
  occurrence in the title counts 4 in all and an occurrence in the body counts 1.
\<close>

theorem classify_scores_weights:
  assumes "preprocess_text env (PStr (article_text a)) = Inr tokens"
    and "preprocess_text env (dict_get_default a ''title'' (PStr [])) = Inr title_tokens"
    and "py_iter (dict_get_default a ''keywords'' (PList [])) = Inr article_keywords"
    and "map_of topic_keywords topic = Some keywords"
  shows "\<exists>sc. classify_scores env a = Inr sc
           \<and> map_of sc topic =
               Some (3 * occurrences keywords title_tokens + 1 * occurrences keywords tokens
                     + 2 * phrase_hits keywords (article_text a)
                     + 4 * keyword_hits keywords article_keywords)
           \<and> (\<forall>body_tokens. tokens = title_tokens @ body_tokens \<longrightarrow>
                map_of sc topic =
                  Some (4 * occurrences keywords title_tokens + 1 * occurrences keywords body_tokens
                        + 2 * phrase_hits keywords (article_text a)
                        + 4 * keyword_hits keywords article_keywords))"
proof -
  let ?sc = "score_keywords article_keywords
               (score_phrases (article_text a)
                 (score_tokens 1 tokens
                   (score_tokens 3 title_tokens (map (\<lambda>topic. (topic, 0)) TOPICS))))"
  have run: "classify_scores env a = Inr ?sc"
    using assms(1-3) by (simp add: classify_scores_def)
  have s0: "map_of (map (\<lambda>topic. (topic, 0::int)) TOPICS) topic = Some 0"
    by (rule initial_scores [OF assms(4)])
  have s1: "map_of (score_tokens 3 title_tokens (map (\<lambda>topic. (topic, 0)) TOPICS)) topic
            = Some (0 + 3 * occurrences keywords title_tokens)"
    by (rule score_tokens_closed [OF s0 assms(4)])
  have s2: "map_of (score_tokens 1 tokens
                     (score_tokens 3 title_tokens (map (\<lambda>topic. (topic, 0)) TOPICS))) topic
            = Some (0 + 3 * occurrences keywords title_tokens + 1 * occurrences keywords tokens)"
    by (rule score_tokens_closed [OF s1 assms(4)])
  have s3: "map_of (score_phrases (article_text a)
                     (score_tokens 1 tokens
                       (score_tokens 3 title_tokens (map (\<lambda>topic. (topic, 0)) TOPICS)))) topic
            = Some (0 + 3 * occurrences keywords title_tokens + 1 * occurrences keywords tokens
                    + 2 * phrase_hits keywords (article_text a))"
    by (rule score_phrases_closed [OF s2 assms(4)])
  have s4: "map_of ?sc topic
            = Some (0 + 3 * occurrences keywords title_tokens + 1 * occurrences keywords tokens
                    + 2 * phrase_hits keywords (article_text a)
                    + 4 * keyword_hits keywords article_keywords)"
    by (rule score_keywords_closed [OF s3 assms(4)])
  show ?thesis
    using run s4 by (auto simp: occurrences_append)
qed

theorem classify_scores_weights_witness:
  "\<exists>sc. classify_scores blank_nltk election_article = Inr sc
     \<and> map_of sc ''politics'' = Some 4"
proof -
  have h1: "preprocess_text blank_nltk (PStr (article_text election_article)) = Inr [''election'']"
    by code_simp
  have h2: "preprocess_text blank_nltk (dict_get_default election_article ''title'' (PStr []))
            = Inr [''election'']"
    by code_simp
  have h3: "py_iter (dict_get_default election_article ''keywords'' (PList [])) = Inr []"
    by code_simp
  have h4: "map_of topic_keywords ''politics'' = Some (topic_kws ''politics'')"
    by code_simp
  have v: "3 * occurrences (topic_kws ''politics'') [''election'']
           + 1 * occurrences (topic_kws ''politics'') [''election'']
           + 2 * phrase_hits (topic_kws ''politics'') (article_text election_article)
           + 4 * keyword_hits (topic_kws ''politics'') [] = 4"
    by code_simp
  from classify_scores_weights [OF h1 h2 h3 h4] show ?thesis
    unfolding v by blast
qed

text \<open>
  C2 as stated fails: with the title \<^verbatim>\<open>election\<close> and an empty body, the one occurrence
  in the title gives politics the score 4, where the stated weights (3 per occurrence in
  the title, 1 per occurrence in the body) give 3.
\<close>

theorem classify_scores_title_weight_counterexample:
  "classify_scores blank_nltk election_article =
     Inr [(''politics'', 4), (''business'', 0), (''technology'', 0), (''health'', 0),
          (''science'', 0), (''sports'', 0), (''entertainment'', 0)]
   \<and> spec_score blank_nltk election_article (topic_kws ''politics'') = Inr 3"
  by code_simp

subsection \<open>Selection\<close>

lemma insort_key_index_tiebreak:
  assumes "\<forall>y \<in> set ys. fst a < fst y"
  shows "insort_key (\<lambda>(i, topic, score). (- score, i)) a ys
         = insort_key (\<lambda>(i :: nat, topic :: string, score :: int). - score) a ys"
  using assms
proof (induction ys)
  case Nil
  then show ?case by simp
next
  case (Cons y ys)
  obtain i t s where a: "a = (i, t, s)" by (cases a)
  obtain j t' s' where y: "y = (j, t', s')" by (cases y)
  have "i < j" using Cons.prems a y by simp
  then have "((- s, i) \<le> (- s', j)) = (- s \<le> - s')"
    by (auto simp: less_eq_prod_def)
  then show ?case
    using Cons a y by simp
qed

lemma sort_key_index_tiebreak:
  assumes "sorted_wrt (\<lambda>a b. fst a < fst b) E"
  shows "sort_key (\<lambda>(i, topic, score). (- score, i)) E
         = sort_key (\<lambda>(i :: nat, topic :: string, score :: int). - score) E"
  using assms
proof (induction E)
  case Nil
  then show ?case by simp
next
  case (Cons e E)
  have "\<forall>y \<in> set (sort_key (\<lambda>(i :: nat, topic :: string, score :: int). - score) E).
          fst e < fst y"
    using Cons.prems by simp
  then show ?case
    using Cons by (simp add: insort_key_index_tiebreak)
qed

lemma map_snd_insort_key:
  "map snd (insort_key (\<lambda>(i, x). k x) e ys) = insort_key k (snd e) (map snd ys)"
  by (induction ys) (auto split: prod.splits)

lemma map_snd_sort_key:
  "map snd (sort_key (\<lambda>(i, x). k x) E) = sort_key k (map snd E)"
  by (induction E) (simp_all add: map_snd_insort_key)

lemma sorted_wrt_enumerate: "sorted_wrt (\<lambda>a b. fst a < fst b) (enumerate n xs)"
proof (induction xs arbitrary: n)
  case Nil
  then show ?case by simp
next
  case (Cons x xs)
  have "\<forall>y \<in> set (enumerate (Suc n) xs). n < fst y"
    by (auto simp: in_set_enumerate_eq)
  then show ?case
    using Cons [of "Suc n"] by simp
qed

text \<open>The stable sort of the code is the ranking of the specification.\<close>

lemma spec_rank_stable_sort:
  "spec_rank sc = sort_key (\<lambda>(topic, score). - score) sc"
proof -
  have "sort_key (\<lambda>(i, topic, score). (- score, i)) (enumerate 0 sc)
        = sort_key (\<lambda>(i, x). (case x of (topic, score) \<Rightarrow> - score)) (enumerate 0 sc)"
    using sort_key_index_tiebreak [OF sorted_wrt_enumerate, of 0 sc]
    by (simp add: case_prod_unfold)
  then show ?thesis
    unfolding spec_rank_def by (simp add: map_snd_sort_key)
qed

lemma set_spec_rank: "set (spec_rank sc) = set sc"
  by (simp add: spec_rank_stable_sort)

lemma spec_select_general:
  assumes "\<forall>(topic, score) \<in> set sc. score \<le> 1"
  shows "spec_select sc = [''general'']"
proof -
  have "filter (\<lambda>(topic, score). score > 1) (spec_rank sc) = []"
    using assms by (auto simp: filter_empty_conv set_spec_rank)
  then show ?thesis
    by (simp add: spec_select_def)
qed

lemma length_spec_select: "length (spec_select sc) \<le> 2"
  by (simp add: spec_select_def Let_def)

lemma spec_select_relevant:
  assumes "t \<in> set (spec_select sc)" and "spec_select sc \<noteq> [''general'']"
  shows "\<exists>s. (t, s) \<in> set sc \<and> s > 1"
proof -
  let ?rel = "filter (\<lambda>(topic, score). score > 1) (spec_rank sc)"
  have "t \<in> fst ` set (take 2 ?rel)"
    using assms by (auto simp: spec_select_def Let_def split: if_splits)
  then obtain s where "(t, s) \<in> set (take 2 ?rel)"
    by auto
  then have "(t, s) \<in> set ?rel"
    by (rule in_set_takeD)
  then show ?thesis
    by (auto simp: set_spec_rank)
qed

text \<open>
  C3 (amended). An article with neither a title nor a content is classified as the
  empty list. For every article with a title or a content on which the tokenizer does
  not raise, neither on the combined text nor on the title, and whose keywords field can
  be iterated, \<open>classify_topic\<close> returns the selection of the specification applied to
  the scores of the article: the topics of score above 1 in descending order of score,
  ties in the configured order, cut to the first two, and exactly \<^verbatim>\<open>["general"]\<close> when
  no score exceeds 1. The scored topics are the configured ones in their order.
\<close>

theorem classify_topic_selection:
  "(\<not> truthy (dict_get a ''content'') \<and> \<not> truthy (dict_get a ''title'') \<longrightarrow>
      classify_topic env a = Inr [])
   \<and> ((truthy (dict_get a ''content'') \<or> truthy (dict_get a ''title''))
       \<and> preprocess_text env (PStr (article_text a)) = Inr tokens
       \<and> preprocess_text env (dict_get_default a ''title'' (PStr [])) = Inr title_tokens
       \<and> py_iter (dict_get_default a ''keywords'' (PList [])) = Inr article_keywords \<longrightarrow>
         (\<exists>sc. classify_scores env a = Inr sc
            \<and> classify_topic env a = Inr (spec_select sc)
            \<and> map fst sc = TOPICS
            \<and> length (spec_select sc) \<le> 2
            \<and> ((\<forall>(topic, score) \<in> set sc. score \<le> 1) \<longrightarrow> spec_select sc = [''general''])
            \<and> (spec_select sc \<noteq> [''general''] \<longrightarrow>
                 (\<forall>t \<in> set (spec_select sc). \<exists>s. (t, s) \<in> set sc \<and> s > 1))))"
proof (intro conjI impI)
  assume "\<not> truthy (dict_get a ''content'') \<and> \<not> truthy (dict_get a ''title'')"
  then show "classify_topic env a = Inr []"
    by (simp add: classify_topic_def)
next
  assume h: "(truthy (dict_get a ''content'') \<or> truthy (dict_get a ''title''))
       \<and> preprocess_text env (PStr (article_text a)) = Inr tokens
       \<and> preprocess_text env (dict_get_default a ''title'' (PStr [])) = Inr title_tokens
       \<and> py_iter (dict_get_default a ''keywords'' (PList [])) = Inr article_keywords"
  define sc where
    "sc = score_keywords article_keywords
            (score_phrases (article_text a)
              (score_tokens 1 tokens
                (score_tokens 3 title_tokens (map (\<lambda>topic. (topic, 0)) TOPICS))))"
  have scores: "classify_scores env a = Inr sc"
    using h by (simp add: classify_scores_def sc_def)
  have guard: "\<not> (\<not> truthy (dict_get a ''content'') \<and> \<not> truthy (dict_get a ''title''))"
    using h by blast
  have topics: "classify_topic env a = Inr (spec_select sc)"
    using guard scores
    by (simp add: classify_topic_def spec_select_def spec_rank_stable_sort Let_def take_map)
  show "\<exists>sc. classify_scores env a = Inr sc
            \<and> classify_topic env a = Inr (spec_select sc)
            \<and> map fst sc = TOPICS
            \<and> length (spec_select sc) \<le> 2
            \<and> ((\<forall>(topic, score) \<in> set sc. score \<le> 1) \<longrightarrow> spec_select sc = [''general''])
            \<and> (spec_select sc \<noteq> [''general''] \<longrightarrow>
                 (\<forall>t \<in> set (spec_select sc). \<exists>s. (t, s) \<in> set sc \<and> s > 1))"
    using scores topics classify_scores_keys [OF scores] length_spec_select [of sc]
      spec_select_general [of sc] spec_select_relevant [where sc = sc]
    by blast
qed

theorem classify_topic_selection_witness:
  "classify_topic blank_nltk bank_article = Inr [''health'', ''business'']
   \<and> classify_topic blank_nltk election_article = Inr [''politics'']
   \<and> classify_topic blank_nltk alice_bob_article = Inr [''general'']
   \<and> classify_topic blank_nltk untitled_stub = Inr []"
proof -
  have s1: "classify_scores blank_nltk bank_article =
              Inr [(''politics'', 0), (''business'', 3), (''technology'', 0), (''health'', 4),
                   (''science'', 0), (''sports'', 0), (''entertainment'', 0)]"
    by code_simp
  have s2: "classify_scores blank_nltk election_article =
              Inr [(''politics'', 4), (''business'', 0), (''technology'', 0), (''health'', 0),
                   (''science'', 0), (''sports'', 0), (''entertainment'', 0)]"
    by code_simp
  have s3: "classify_scores blank_nltk alice_bob_article =
              Inr [(''politics'', 0), (''business'', 0), (''technology'', 0), (''health'', 0),
                   (''science'', 0), (''sports'', 0), (''entertainment'', 0)]"
    by code_simp
  have h1: "(truthy (dict_get bank_article ''content'') \<or> truthy (dict_get bank_article ''title''))
       \<and> preprocess_text blank_nltk (PStr (article_text bank_article))
           = Inr [''fed'', ''raises'', ''interest'', ''rates'', ''bank'', ''sees'', ''economic'',
                  ''risk'', ''market'']
       \<and> preprocess_text blank_nltk (dict_get_default bank_article ''title'' (PStr []))
           = Inr [''fed'', ''raises'', ''interest'', ''rates'']
       \<and> py_iter (dict_get_default bank_article ''keywords'' (PList [])) = Inr [''vaccine'']"
    by code_simp
  have h2: "(truthy (dict_get election_article ''content'')
             \<or> truthy (dict_get election_article ''title''))
       \<and> preprocess_text blank_nltk (PStr (article_text election_article)) = Inr [''election'']
       \<and> preprocess_text blank_nltk (dict_get_default election_article ''title'' (PStr []))
           = Inr [''election'']
       \<and> py_iter (dict_get_default election_article ''keywords'' (PList [])) = Inr []"
    by code_simp
  have h3: "(truthy (dict_get alice_bob_article ''content'')
             \<or> truthy (dict_get alice_bob_article ''title''))
       \<and> preprocess_text blank_nltk (PStr (article_text alice_bob_article))
           = Inr [''alice'', ''bob'', ''alice'', ''bob'']
       \<and> preprocess_text blank_nltk (dict_get_default alice_bob_article ''title'' (PStr []))
           = Inr [''alice'', ''bob'']
       \<and> py_iter (dict_get_default alice_bob_article ''keywords'' (PList [])) = Inr []"
    by code_simp
  have h4: "\<not> truthy (dict_get untitled_stub ''content'')
            \<and> \<not> truthy (dict_get untitled_stub ''title'')"
    by code_simp
  have v1: "spec_select [(''politics'', 0), (''business'', 3), (''technology'', 0), (''health'', 4),
                   (''science'', 0), (''sports'', 0), (''entertainment'', 0)]
            = [''health'', ''business'']"
    by code_simp
  have v2: "spec_select [(''politics'', 4), (''business'', 0), (''technology'', 0), (''health'', 0),
                   (''science'', 0), (''sports'', 0), (''entertainment'', 0)]
            = [''politics'']"
    by code_simp
  have v3: "spec_select [(''politics'', 0), (''business'', 0), (''technology'', 0), (''health'', 0),
                   (''science'', 0), (''sports'', 0), (''entertainment'', 0)]
            = [''general'']"
    by code_simp
  have t1: "classify_topic blank_nltk bank_article = Inr [''health'', ''business'']"
    using classify_topic_selection [where env = blank_nltk and a = bank_article] h1 s1 v1
    by fastforce
  have t2: "classify_topic blank_nltk election_article = Inr [''politics'']"
    using classify_topic_selection [where env = blank_nltk and a = election_article] h2 s2 v2
    by fastforce
  have t3: "classify_topic blank_nltk alice_bob_article = Inr [''general'']"
    using classify_topic_selection [where env = blank_nltk and a = alice_bob_article] h3 s3 v3
    by fastforce
  have t4: "classify_topic blank_nltk untitled_stub = Inr []"
    using classify_topic_selection [where env = blank_nltk and a = untitled_stub] h4
    by blast
  show ?thesis
    using t1 t2 t3 t4 by blast
qed

text \<open>
  C3 as stated fails: the stub of a feed entry without title, whose content was not
  fetched, has no keyword match and no score above 1, and is classified as the empty
  list, not as \<^verbatim>\<open>["general"]\<close>. And an article whose keywords field is \<^verbatim>\<open>None\<close>, or
  any article with a title when the tokenizer raises, is not classified at all:
  \<open>classify_topic\<close> raises.
\<close>

theorem classify_topic_empty_counterexample:
  "classify_scores blank_nltk untitled_stub =
     Inr [(''politics'', 0), (''business'', 0), (''technology'', 0), (''health'', 0),
          (''science'', 0), (''sports'', 0), (''entertainment'', 0)]
   \<and> classify_topic blank_nltk untitled_stub = Inr []
   \<and> classify_topic blank_nltk untitled_stub \<noteq> Inr [''general'']
   \<and> classify_topic blank_nltk keyless_article = Inl TypeError
   \<and> classify_topic down_nltk election_article = Inl LookupError"
  by code_simp

subsection \<open>Faults during enrichment\<close>

lemma map_fst_add_chunk: "map fst (add_chunk c entities) = map fst entities"
proof (cases c)
  case (Token w t)
  then show ?thesis by simp
next
  case (Tree entity_type leaves)
  show ?thesis
  proof (cases "map_of entities entity_type")
    case None
    then show ?thesis using Tree by simp
  next
    case (Some names)
    then have "entity_type \<in> fst ` set entities"
      using map_of_SomeD by force
    then have "map fst (AList.update entity_type v entities) = map fst entities" for v
      by (simp add: update_keys)
    then show ?thesis
      using Tree Some by (simp add: Let_def)
  qed
qed

lemma map_fst_fold_add_chunk: "map fst (fold add_chunk cs entities) = map fst entities"
  by (induction cs arbitrary: entities) (simp_all add: map_fst_add_chunk)

lemma map_fst_ner_sentences: "map fst (ner_sentences env ss entities) = map fst entities"
  by (induction ss arbitrary: entities)
     (auto simp: map_fst_fold_add_chunk split: sum.splits)

lemma ner_sentences_stops:
  assumes "tagging_raises env bad"
  shows "ner_sentences env (before @ bad # rest) entities = ner_sentences env before entities"
proof (induction before arbitrary: entities)
  case Nil
  then show ?case
    using assms by (auto simp: tagging_raises_def split: sum.splits)
next
  case (Cons s before)
  then show ?case
    by (auto split: sum.splits)
qed

lemma extract_named_entities_keys:
  "map fst (extract_named_entities env text) = map fst empty_entities"
  unfolding extract_named_entities_def
  by (auto simp: map_fst_ner_sentences split: pyval.splits sum.splits)

text \<open>
  The handler of \<open>extract_named_entities\<close>: an exception of the sentence splitter, the
  tokenizer, the tagger or the chunker is not propagated. When the sentence splitter
  raises, the six categories are returned empty; when the work on a sentence raises, the
  entities collected from the sentences before it are returned. The result always has
  the six categories.
\<close>

lemma extract_named_entities_handler:
  "(sent_tokenize env s = Inl e \<longrightarrow> extract_named_entities env (PStr s) = empty_entities)
   \<and> (s \<noteq> [] \<and> sent_tokenize env s = Inr (before @ bad # rest) \<and> tagging_raises env bad \<longrightarrow>
        extract_named_entities env (PStr s) = ner_sentences env before empty_entities)
   \<and> map fst (extract_named_entities env text) =
        [''PERSON'', ''ORGANIZATION'', ''LOCATION'', ''DATE'', ''MONEY'', ''GPE'']"
proof -
  have a: "sent_tokenize env s = Inl e \<longrightarrow> extract_named_entities env (PStr s) = empty_entities"
    by (simp add: extract_named_entities_def)
  have b: "s \<noteq> [] \<and> sent_tokenize env s = Inr (before @ bad # rest) \<and> tagging_raises env bad \<longrightarrow>
           extract_named_entities env (PStr s) = ner_sentences env before empty_entities"
    by (simp add: extract_named_entities_def ner_sentences_stops)
  have c: "map fst (extract_named_entities env text) =
             [''PERSON'', ''ORGANIZATION'', ''LOCATION'', ''DATE'', ''MONEY'', ''GPE'']"
    by (simp add: extract_named_entities_keys) (simp add: empty_entities_def)
  from a b c show ?thesis
    by (intro conjI)
qed

text \<open>
  \<open>classify_topic\<close> has no handler: for an article with a title or a content, an
  exception of the tokenizer on the combined text leaves \<open>classify_topic\<close> and with it
  \<open>process_article\<close>.
\<close>

lemma process_article_propagates:
  assumes "truthy (dict_get a ''content'') \<or> truthy (dict_get a ''title'')"
    and "word_tokenize env (py_lower (article_text a)) = Inl e"
  shows "classify_topic env a = Inl e" and "process_article env a = Inl e"
proof -
  have "article_text a \<noteq> []"
    by (simp add: article_text_def)
  then have "preprocess_text env (PStr (article_text a)) = Inl e"
    using assms(2) by (simp add: preprocess_text_def)
  then have "classify_scores env a = Inl e"
    by (simp add: classify_scores_def)
  then show "classify_topic env a = Inl e"
    using assms(1) by (auto simp: classify_topic_def)
  then show "process_article env a = Inl e"
    by (simp add: process_article_def)
qed

text \<open>
  C4. The claim: when tokenization or tagging raises during enrichment,
  \<open>process_article\<close> still returns, with the entities defaulting to the empty category
  map and the topics to \<^verbatim>\<open>["general"]\<close>. The code at an article with a title and a
  content, with a tokenizer whose model is missing: \<open>extract_named_entities\<close> catches the
  \<^verbatim>\<open>LookupError\<close> and returns the empty category map, as the claim says; \<open>classify_topic\<close>
  calls the same tokenizer with no handler, and the \<^verbatim>\<open>LookupError\<close> leaves
  \<open>process_article\<close>: no article is returned and no topics are set. With a tokenizer
  that works the same article is returned with the topics \<^verbatim>\<open>["general"]\<close>.
\<close>

theorem process_article_tokenizer_fault:
  "truthy (dict_get alice_bob_article ''title'')
   \<and> sent_tokenize down_nltk ''Alice spoke. Bob left.'' = Inl LookupError
   \<and> word_tokenize down_nltk ''alice and bob alice spoke. bob left.'' = Inl LookupError
   \<and> extract_named_entities down_nltk (dict_get_default alice_bob_article ''content'' (PStr []))
       = empty_entities
   \<and> classify_topic down_nltk alice_bob_article = Inl LookupError
   \<and> process_article down_nltk alice_bob_article = Inl LookupError
   \<and> process_article blank_nltk alice_bob_article =
       Inr [(''title'', PStr ''Alice and Bob''), (''content'', PStr ''Alice spoke. Bob left.''),
            (''topics'', PList [''general'']), (''entities'', PDict empty_entities)]"
  by code_simp

section \<open>Properties of the content fetcher\<close>

lemma dict_get_map_of: "map_of a k = Some v \<Longrightarrow> dict_get a k = v"
  by (simp add: dict_get_def)

lemma has_key_map_of: "has_key a k = (map_of a k \<noteq> None)"
  by (simp add: has_key_def map_of_eq_None_iff)

lemma feed_stub_keys:
  "has_key (feed_stub entry feed_name now) ''link''
   \<and> has_key (feed_stub entry feed_name now) ''title''
   \<and> dict_get (feed_stub entry feed_name now) ''content'' = PNone
   \<and> dict_get (feed_stub entry feed_name now) ''link'' = PStr (entry_get entry ''link'')"
  by (simp add: feed_stub_def has_key_def dict_get_def)

text \<open>
  C8. For every article that has the keys \<^verbatim>\<open>link\<close> and \<^verbatim>\<open>title\<close>, as every stub of the
  feed acquirer has: with an empty link the article is returned unchanged; when the
  download, the parse or the NLP pass raises, the article is returned unchanged, so a
  content that was \<^verbatim>\<open>None\<close> stays \<^verbatim>\<open>None\<close>; and the call returns, it never raises.
\<close>

theorem scrape_article_content_failure:
  assumes "has_key a ''link''" and "has_key a ''title''"
  shows "(\<not> truthy (dict_get a ''link'') \<longrightarrow> scrape_article_content fetch a = Inr a)
       \<and> (fetch_page fetch (dict_get a ''link'') = Inl e \<longrightarrow>
            scrape_article_content fetch a = Inr a
            \<and> (dict_get a ''content'' = PNone \<longrightarrow>
                 (\<forall>r. scrape_article_content fetch a = Inr r \<longrightarrow> dict_get r ''content'' = PNone)))
       \<and> (\<exists>r. scrape_article_content fetch a = Inr r)"
proof -
  obtain link where link: "map_of a ''link'' = Some link"
    using assms(1) by (auto simp: has_key_map_of)
  obtain title where title: "map_of a ''title'' = Some title"
    using assms(2) by (auto simp: has_key_map_of)
  have get: "dict_get a ''link'' = link"
    by (rule dict_get_map_of [OF link])
  show ?thesis
  proof (cases "truthy link")
    case False
    then have "scrape_article_content fetch a = Inr a"
      by (simp add: scrape_article_content_def link title)
    then show ?thesis
      using get by simp
  next
    case True
    show ?thesis
    proof (cases "fetch_page fetch link")
      case (Inl e')
      then have "scrape_article_content fetch a = Inr a"
        using True by (simp add: scrape_article_content_def link)
      then show ?thesis
        using get by simp
    next
      case (Inr news_article)
      then show ?thesis
        using True get by (simp add: scrape_article_content_def link)
    qed
  qed
qed

theorem scrape_article_content_failure_witness:
  "scrape_article_content (\<lambda>url. Inl FetchError)
     (feed_stub [(''title'', ''Fed raises interest rates'')] ''BBC News'' ''2024-01-01T00:00:00'')
   = Inr (feed_stub [(''title'', ''Fed raises interest rates'')] ''BBC News'' ''2024-01-01T00:00:00'')
   \<and> scrape_article_content (\<lambda>url. Inl FetchError)
     (feed_stub [(''title'', ''T''), (''link'', ''http://a.example/x'')] ''CNN'' ''2024-01-01T00:00:00'')
   = Inr (feed_stub [(''title'', ''T''), (''link'', ''http://a.example/x'')] ''CNN'' ''2024-01-01T00:00:00'')"
proof -
  let ?a = "feed_stub [(''title'', ''Fed raises interest rates'')] ''BBC News'' ''2024-01-01T00:00:00''"
  let ?b = "feed_stub [(''title'', ''T''), (''link'', ''http://a.example/x'')] ''CNN'' ''2024-01-01T00:00:00''"
  have ka: "has_key ?a ''link''" "has_key ?a ''title''"
    using feed_stub_keys by blast+
  have kb: "has_key ?b ''link''" "has_key ?b ''title''"
    using feed_stub_keys by blast+
  have la: "\<not> truthy (dict_get ?a ''link'')"
    using feed_stub_keys [of "[(''title'', ''Fed raises interest rates'')]"]
    by (simp add: entry_get_def)
  have lb: "fetch_page (\<lambda>url. Inl FetchError) (dict_get ?b ''link'') = Inl FetchError"
    using feed_stub_keys [of "[(''title'', ''T''), (''link'', ''http://a.example/x'')]"]
    by (simp add: fetch_page_def)
  show ?thesis
    using scrape_article_content_failure [OF ka, of "\<lambda>url. Inl FetchError" FetchError] la
          scrape_article_content_failure [OF kb, of "\<lambda>url. Inl FetchError" FetchError] lb
    by blast
qed

section \<open>Properties of the storage backends\<close>

subsection \<open>Dictionaries\<close>





lemma dict_set_nonempty: "dict_set k v d \<noteq> []"
  unfolding dict_set_def by (cases d) auto

subsection \<open>The collection\<close>





















subsection \<open>The directory\<close>



lemma truthy_nonempty: "truthy (dict_get a k) \<Longrightarrow> a \<noteq> []"
  by (auto simp: dict_get_def)

text \<open>The save of an article with an id, as the outcome of opening the file and of
  writing the document.\<close>

lemma fs_save_article_run:
  assumes "truthy (dict_get a ''article_id'')"
  shows "fs_save_article resolve now t a fs =
           (case resolve (json_name (dict_get a ''article_id'')) of
              None \<Rightarrow>
                (False, if \<not> has_key a ''scraped_at''
                        then dict_set ''scraped_at'' (PDateTime now) a else a, fs)
            | Some key \<Rightarrow>
                (case json_dump (serialize_article
                        (if \<not> has_key a ''scraped_at''
                         then dict_set ''scraped_at'' (PDateTime now) a else a)) of
                   Inl e \<Rightarrow>
                     (False, if \<not> has_key a ''scraped_at''
                             then dict_set ''scraped_at'' (PDateTime now) a else a,
                      write_file key t Garbage fs)
                 | Inr doc \<Rightarrow>
                     (True, if \<not> has_key a ''scraped_at''
                            then dict_set ''scraped_at'' (PDateTime now) a else a,
                      write_file key t (Json doc) fs)))"
  using assms truthy_nonempty [OF assms] unfolding fs_save_article_def Let_def by simp





lemma map_of_write_file: "map_of (write_file key t body fs) key = Some (t, body)"
  by (simp add: write_file_def update_conv')





subsection \<open>Saving twice\<close>




subsection \<open>Failing saves\<close>







subsection \<open>Changes to the caller's article\<close>

lemma map_of_serialize_field_other:
  "k \<noteq> k' \<Longrightarrow> map_of (serialize_field k d) k' = map_of d k'"
  by (auto simp: serialize_field_def update_conv' split: option.splits pyval.splits)

lemma map_of_serialize_field_datetime:
  "map_of d k = Some (PDateTime stamp) \<Longrightarrow> map_of (serialize_field k d) k = Some (PStr stamp)"
  by (simp add: serialize_field_def update_conv')

lemma serialize_stamped:
  "map_of (serialize_article (dict_set ''scraped_at'' (PDateTime now) a)) ''scraped_at''
     = Some (PStr now)"
proof -
  have "map_of (dict_set ''scraped_at'' (PDateTime now) a) ''scraped_at'' = Some (PDateTime now)"
    by (simp add: dict_set_def update_conv')
  then have "map_of (serialize_field ''published_date'' (dict_set ''scraped_at'' (PDateTime now) a))
               ''scraped_at'' = Some (PDateTime now)"
    by (simp add: map_of_serialize_field_other)
  then show ?thesis
    unfolding serialize_article_def by (rule map_of_serialize_field_datetime)
qed

text \<open>
  C10. For every article with an \<^verbatim>\<open>article_id\<close> and without the key \<^verbatim>\<open>scraped_at\<close>,
  \<open>fs_save_article\<close> leaves the caller's article with \<^verbatim>\<open>scraped_at\<close> set to the current
  time, and the record it writes carries that time as text. An article that has the key
  \<^verbatim>\<open>scraped_at\<close> is left as it was. \<open>db_save_article\<close> leaves every article as it was.
\<close>

theorem save_article_mutation:
  "(truthy (dict_get a ''article_id'') \<and> \<not> has_key a ''scraped_at'' \<longrightarrow>
       fst (snd (fs_save_article resolve now t a fs)) = dict_set ''scraped_at'' (PDateTime now) a
       \<and> (fst (fs_save_article resolve now t a fs) \<longrightarrow>
            (\<exists>key doc. resolve (json_name (dict_get a ''article_id'')) = Some key
                  \<and> map_of (snd (snd (fs_save_article resolve now t a fs))) key
                      = Some (t, Json doc)
                  \<and> map_of doc ''scraped_at'' = Some (PStr now))))
   \<and> (has_key a ''scraped_at'' \<longrightarrow> fst (snd (fs_save_article resolve now t a fs)) = a)
   \<and> fst (snd (db_save_article flt a docs)) = a"
proof (intro conjI impI)
  assume h: "truthy (dict_get a ''article_id'') \<and> \<not> has_key a ''scraped_at''"
  define stamped where "stamped = dict_set ''scraped_at'' (PDateTime now) a"
  define name where "name = json_name (dict_get a ''article_id'')"
  have run: "fs_save_article resolve now t a fs =
               (case resolve name of
                  None \<Rightarrow> (False, stamped, fs)
                | Some key \<Rightarrow>
                    (case json_dump (serialize_article stamped) of
                       Inl e \<Rightarrow> (False, stamped, write_file key t Garbage fs)
                     | Inr doc \<Rightarrow> (True, stamped, write_file key t (Json doc) fs)))"
    using h fs_save_article_run [of a resolve now t fs] unfolding stamped_def name_def by simp
  show "fst (snd (fs_save_article resolve now t a fs)) = dict_set ''scraped_at'' (PDateTime now) a"
    unfolding run stamped_def by (simp split: option.splits sum.splits)
  assume ok: "fst (fs_save_article resolve now t a fs)"
  then obtain key where key: "resolve name = Some key"
    unfolding run by (cases "resolve name") simp_all
  then obtain doc where doc: "json_dump (serialize_article stamped) = Inr doc"
    using ok unfolding run by (cases "json_dump (serialize_article stamped)") simp_all
  have "doc = serialize_article stamped"
    using doc by (simp add: json_dump_def split: if_splits)
  then have stamp: "map_of doc ''scraped_at'' = Some (PStr now)"
    unfolding stamped_def by (simp add: serialize_stamped)
  have "map_of (snd (snd (fs_save_article resolve now t a fs))) key = Some (t, Json doc)"
    unfolding run using key doc by (simp add: map_of_write_file)
  then show "\<exists>key doc. resolve (json_name (dict_get a ''article_id'')) = Some key
                  \<and> map_of (snd (snd (fs_save_article resolve now t a fs))) key
                      = Some (t, Json doc)
                  \<and> map_of doc ''scraped_at'' = Some (PStr now)"
    using stamp key unfolding name_def by blast
next
  assume "has_key a ''scraped_at''"
  then show "fst (snd (fs_save_article resolve now t a fs)) = a"
    by (simp add: fs_save_article_def Let_def split: option.splits sum.splits)
next
  show "fst (snd (db_save_article flt a docs)) = a"
    by (simp add: db_save_article_def split: sum.splits prod.splits)
qed

theorem save_article_mutation_witness:
  "fst (snd (fs_save_article (plain_dir [''a2.json'']) ''2024-03-01T00:00:00'' 1
               unstamped_article []))
     = [(''article_id'', PStr ''a2''), (''title'', PStr ''Cup final''),
        (''scraped_at'', PDateTime ''2024-03-01T00:00:00'')]
   \<and> fst (snd (fs_save_article (plain_dir [''a1.json'']) ''2024-03-01T00:00:00'' 1
                 full_article [])) = full_article
   \<and> fst (snd (db_save_article No_fault unstamped_article [])) = unstamped_article
   \<and> (\<exists>doc. map_of (snd (snd (fs_save_article (plain_dir [''a2.json''])
                                  ''2024-03-01T00:00:00'' 1 unstamped_article [])))
                (Entry ''a2.json'') = Some (1, Json doc)
          \<and> map_of doc ''scraped_at'' = Some (PStr ''2024-03-01T00:00:00''))"
proof -
  have h1: "truthy (dict_get unstamped_article ''article_id'')
            \<and> \<not> has_key unstamped_article ''scraped_at''"
    by code_simp
  have h2: "has_key full_article ''scraped_at''"
    by code_simp
  have h3: "fst (fs_save_article (plain_dir [''a2.json'']) ''2024-03-01T00:00:00'' 1
                   unstamped_article [])"
    by code_simp
  have r: "plain_dir [''a2.json''] (json_name (dict_get unstamped_article ''article_id''))
             = Some (Entry ''a2.json'')"
    by code_simp
  have v: "dict_set ''scraped_at'' (PDateTime ''2024-03-01T00:00:00'') unstamped_article
           = [(''article_id'', PStr ''a2''), (''title'', PStr ''Cup final''),
              (''scraped_at'', PDateTime ''2024-03-01T00:00:00'')]"
    by code_simp
  show ?thesis
    using save_article_mutation
            [where a = unstamped_article and resolve = "plain_dir [''a2.json'']"
               and now = "''2024-03-01T00:00:00''" and t = 1 and fs = "[]"
               and flt = No_fault and docs = "[]"]
          save_article_mutation
            [where a = full_article and resolve = "plain_dir [''a1.json'']"
               and now = "''2024-03-01T00:00:00''" and t = 1 and fs = "[]"]
          h1 h2 h3
    unfolding v r by auto
qed

subsection \<open>Pagination\<close>

lemma take_min_length: "take (min k (length ys)) ys = take k ys"
  by (cases "k \<le> length ys") (simp_all add: min_def)

lemma py_slice_window:
  assumes "0 \<le> i" and "0 \<le> n"
  shows "py_slice xs i (i + n) = take (nat n) (drop (nat i) xs)"
proof (cases "i \<le> int (length xs)")
  case True
  have "nat (min (i + n) (int (length xs)) - i) = min (nat n) (length (drop (nat i) xs))"
    using assms True by (simp add: min_def nat_diff_distrib) linarith
  then have "take (nat (min (i + n) (int (length xs)) - i)) (drop (nat i) xs)
             = take (nat n) (drop (nat i) xs)"
    by (simp only: take_min_length)
  then show ?thesis
    using assms True by (simp add: py_slice_def Let_def min_def)
next
  case False
  then show ?thesis
    using assms by (simp add: py_slice_def Let_def min_def)
qed

lemma py_slice_beyond:
  assumes "int (length xs) \<le> i"
  shows "py_slice xs i j = []"
  using assms by (auto simp: py_slice_def Let_def min_def max_def)

lemma load_all_readable:
  assumes "list_all (\<lambda>(name, t, body). body \<noteq> Garbage) fs"
  shows "load_all fromiso fs = Inr (map (file_article fromiso) fs)"
  using assms
proof (induction fs)
  case Nil
  then show ?case by simp
next
  case (Cons f fs)
  obtain name t body where f: "f = (name, t, body)" by (cases f)
  then obtain d where body: "body = Json d"
    using Cons.prems by (cases body) simp_all
  show ?case
    using Cons f body by (simp add: file_article_def)
qed

lemma list_all_take_drop:
  "list_all P xs \<Longrightarrow> list_all P (take n (drop m xs))"
  by (auto simp: list_all_iff dest: in_set_takeD in_set_dropD)

lemma recent_files_readable:
  assumes "readable fs"
  shows "list_all (\<lambda>(name, t, body). body \<noteq> Garbage) (recent_files fs)"
  using assms by (auto simp: readable_def recent_files_def sort_desc_def list_all_iff)

lemma cursor_limit_positive: "0 < n \<Longrightarrow> cursor_limit n xs = take (nat n) xs"
  by (simp add: cursor_limit_def)

text \<open>
  C7 (amended). In the document store, for a skip \<open>S \<ge> 0\<close> and a limit \<open>L > 0\<close>,
  \<open>db_get_articles\<close> returns the positions from \<open>S\<close> up to \<open>S + L\<close> of the matching
  documents in descending order of \<^verbatim>\<open>scraped_at\<close>, that is of the result with no skip and
  no limit. In the file store, for \<open>S \<ge> 0\<close> and \<open>L \<ge> 0\<close>, \<open>fs_get_recent_articles\<close>
  returns the positions from \<open>S\<close> up to \<open>S + L\<close> of the stored files in descending
  order of modification time, when the files can be loaded. On both, a skip beyond the
  end gives the empty list; both are total, and a query of the document store that is
  met by a fault gives the empty list.
\<close>

theorem query_pagination:
  "(0 \<le> skip \<and> 0 < limit \<longrightarrow>
      db_get_articles No_fault filters limit skip docs
        = spec_page (filter (doc_matches filters) docs) (nat limit) (nat skip)
      \<and> db_get_articles No_fault filters limit skip docs
        = take (nat limit) (drop (nat skip) (db_get_articles No_fault filters 0 0 docs)))
   \<and> (int (length (filter (doc_matches filters) docs)) \<le> skip \<longrightarrow>
        db_get_articles flt filters limit skip docs = [])
   \<and> (flt \<noteq> No_fault \<longrightarrow> db_get_articles flt filters limit skip docs = [])
   \<and> (readable fs \<and> 0 \<le> skip \<and> 0 \<le> limit \<longrightarrow>
        fs_get_recent_articles fromiso limit skip fs
          = take (nat limit) (drop (nat skip) (map (file_article fromiso) (recent_files fs))))
   \<and> (int (length (recent_files fs)) \<le> skip \<longrightarrow>
        fs_get_recent_articles fromiso limit skip fs = [])"
proof (intro conjI impI)
  assume h: "0 \<le> skip \<and> 0 < limit"
  show "db_get_articles No_fault filters limit skip docs
        = spec_page (filter (doc_matches filters) docs) (nat limit) (nat skip)"
    using h by (simp add: db_get_articles_def spec_page_def cursor_limit_positive)
  show "db_get_articles No_fault filters limit skip docs
        = take (nat limit) (drop (nat skip) (db_get_articles No_fault filters 0 0 docs))"
    using h by (simp add: db_get_articles_def cursor_limit_def)
next
  assume "int (length (filter (doc_matches filters) docs)) \<le> skip"
  then have "drop (nat skip)
               (sort_desc (\<lambda>d. bson_sort_key (map_of d ''scraped_at''))
                  (filter (doc_matches filters) docs)) = []"
    by (simp add: sort_desc_def)
  then show "db_get_articles flt filters limit skip docs = []"
    by (simp add: db_get_articles_def cursor_limit_def)
next
  assume "flt \<noteq> No_fault"
  then show "db_get_articles flt filters limit skip docs = []"
    by (simp add: db_get_articles_def)
next
  assume h: "readable fs \<and> 0 \<le> skip \<and> 0 \<le> limit"
  have page: "py_slice (recent_files fs) skip (skip + limit)
              = take (nat limit) (drop (nat skip) (recent_files fs))"
    using h by (simp add: py_slice_window)
  have "list_all (\<lambda>(name, t, body). body \<noteq> Garbage)
          (take (nat limit) (drop (nat skip) (recent_files fs)))"
    using h by (intro list_all_take_drop recent_files_readable) simp
  then have "load_all fromiso (take (nat limit) (drop (nat skip) (recent_files fs)))
             = Inr (map (file_article fromiso) (take (nat limit) (drop (nat skip) (recent_files fs))))"
    by (rule load_all_readable)
  then show "fs_get_recent_articles fromiso limit skip fs
          = take (nat limit) (drop (nat skip) (map (file_article fromiso) (recent_files fs)))"
    by (simp add: fs_get_recent_articles_def page take_map drop_map)
next
  assume "int (length (recent_files fs)) \<le> skip"
  then have "py_slice (recent_files fs) skip (skip + limit) = []"
    by (rule py_slice_beyond)
  then show "fs_get_recent_articles fromiso limit skip fs = []"
    by (simp add: fs_get_recent_articles_def)
qed

theorem query_pagination_witness:
  "db_get_articles No_fault [] 1 1 [january_article, february_article] = [january_article]
   \<and> db_get_articles No_fault [] 5 2 [january_article, february_article] = []
   \<and> db_get_articles (Raises_before ConnectionFailure) [] 1 1 [january_article, february_article]
       = []
   \<and> fs_get_recent_articles iso_text 1 1
       [(Entry ''feb.json'', 1, Json february_article),
        (Entry ''jan.json'', 2, Json january_article)]
     = [[(''article_id'', PStr ''feb''), (''title'', PStr ''February''),
         (''scraped_at'', PDateTime ''2024-02-01T00:00:00'')]]
   \<and> fs_get_recent_articles iso_text 5 2
       [(Entry ''feb.json'', 1, Json february_article),
        (Entry ''jan.json'', 2, Json january_article)]
     = []"
proof -
  let ?docs = "[january_article, february_article]"
  let ?fs = "[(Entry ''feb.json'', 1, Json february_article),
              (Entry ''jan.json'', 2, Json january_article)]"
  have h1: "(0::int) \<le> 1 \<and> (0::int) < 1"
    by simp
  have h2: "int (length (filter (doc_matches []) ?docs)) \<le> 2"
    by (simp add: doc_matches_def)
  have h3: "readable ?fs \<and> (0::int) \<le> 1 \<and> (0::int) \<le> 1"
    by (simp add: readable_def)
  have h4: "int (length (recent_files ?fs)) \<le> 2"
    by (simp add: recent_files_def sort_desc_def)
  have h5: "Raises_before ConnectionFailure \<noteq> No_fault"
    by simp
  have v1: "spec_page (filter (doc_matches []) ?docs) (nat 1) (nat 1) = [january_article]"
    by code_simp
  have v3: "take (nat 1) (drop (nat 1) (map (file_article iso_text) (recent_files ?fs)))
            = [[(''article_id'', PStr ''feb''), (''title'', PStr ''February''),
                (''scraped_at'', PDateTime ''2024-02-01T00:00:00'')]]"
    by code_simp
  show ?thesis
    using query_pagination [where skip = 1 and limit = 1 and filters = "[]" and docs = ?docs
                              and flt = "Raises_before ConnectionFailure"
                              and fs = ?fs and fromiso = iso_text]
          query_pagination [where skip = 2 and limit = 5 and filters = "[]" and docs = ?docs
                              and flt = No_fault and fs = ?fs and fromiso = iso_text]
          h1 h2 h3 h4 h5
    unfolding v1 v3 by blast
qed

text \<open>
  C7 as stated fails for the file store: the article scraped in February is saved first
  and the article scraped in January second; the first page of \<open>fs_get_recent_articles\<close>
  is the January article, the file written last, where the descending order of
  \<^verbatim>\<open>scraped_at\<close> puts the February article first.
\<close>

theorem query_pagination_counterexample:
  "fs_save_article (plain_dir [''feb.json'', ''jan.json'']) ''2024-03-01T00:00:00'' 1
        february_article []
     = (True, february_article, [(Entry ''feb.json'', 1, Json february_article)])
   \<and> fs_save_article (plain_dir [''feb.json'', ''jan.json'']) ''2024-03-02T00:00:00'' 2
        january_article [(Entry ''feb.json'', 1, Json february_article)]
     = (True, january_article,
        [(Entry ''feb.json'', 1, Json february_article),
         (Entry ''jan.json'', 2, Json january_article)])
   \<and> fs_get_recent_articles iso_text 1 0
        [(Entry ''feb.json'', 1, Json february_article),
         (Entry ''jan.json'', 2, Json january_article)]
     = [[(''article_id'', PStr ''jan''), (''title'', PStr ''January''),
         (''scraped_at'', PDateTime ''2024-01-01T00:00:00'')]]
   \<and> spec_page (stored_articles iso_text
        [(Entry ''feb.json'', 1, Json february_article),
         (Entry ''jan.json'', 2, Json january_article)]) 1 0
     = [[(''article_id'', PStr ''feb''), (''title'', PStr ''February''),
         (''scraped_at'', PDateTime ''2024-02-01T00:00:00'')]]"
  by code_simp

section \<open>The same saves on both backends\<close>

subsection \<open>Records that agree with documents\<close>

















subsection \<open>Documents and files side by side\<close>









subsection \<open>One save on both backends\<close>




subsection \<open>Interchangeable backends\<close>




end
